theory Spec2Isabelle
  imports Complex_Main "HOL-Library.AList" "HOL-Library.Sublist"
begin

section \<open>Strings\<close>

text \<open>
  JavaScript strings are modelled as \<^typ>\<open>string\<close>: a character is a code unit below
  \<open>0x100\<close>. \<open>toLowerCase\<close> maps \<open>A\<close>..\<open>Z\<close> to \<open>a\<close>..\<open>z\<close> and the capital letters
  \<open>0xC0\<close>..\<open>0xDE\<close> (all but the multiplication sign \<open>0xD7\<close>) to the letters \<open>0x20\<close> above
  them, and leaves every other character alone. \<open>String.prototype.includes\<close> is the
  contiguous-substring test and \<open>String.prototype.endsWith\<close> the suffix test.
\<close>

definition upperLetters :: "char list" where
  "upperLetters =
     ''ABCDEFGHIJKLMNOPQRSTUVWXYZ'' @
     [CHR 0xC0, CHR 0xC1, CHR 0xC2, CHR 0xC3, CHR 0xC4, CHR 0xC5, CHR 0xC6,
      CHR 0xC7, CHR 0xC8, CHR 0xC9, CHR 0xCA, CHR 0xCB, CHR 0xCC, CHR 0xCD,
      CHR 0xCE, CHR 0xCF, CHR 0xD0, CHR 0xD1, CHR 0xD2, CHR 0xD3, CHR 0xD4,
      CHR 0xD5, CHR 0xD6, CHR 0xD8, CHR 0xD9, CHR 0xDA, CHR 0xDB, CHR 0xDC,
      CHR 0xDD, CHR 0xDE]"

definition lowerLetters :: "char list" where
  "lowerLetters =
     ''abcdefghijklmnopqrstuvwxyz'' @
     [CHR 0xE0, CHR 0xE1, CHR 0xE2, CHR 0xE3, CHR 0xE4, CHR 0xE5, CHR 0xE6,
      CHR 0xE7, CHR 0xE8, CHR 0xE9, CHR 0xEA, CHR 0xEB, CHR 0xEC, CHR 0xED,
      CHR 0xEE, CHR 0xEF, CHR 0xF0, CHR 0xF1, CHR 0xF2, CHR 0xF3, CHR 0xF4,
      CHR 0xF5, CHR 0xF6, CHR 0xF8, CHR 0xF9, CHR 0xFA, CHR 0xFB, CHR 0xFC,
      CHR 0xFD, CHR 0xFE]"

definition lowerChar :: "char \<Rightarrow> char" where
  "lowerChar c =
     (case map_of (zip upperLetters lowerLetters) c of
        None \<Rightarrow> c
      | Some l \<Rightarrow> l)"

definition toLowerCase :: "string \<Rightarrow> string" where
  "toLowerCase s = map lowerChar s"

fun startsWith :: "string \<Rightarrow> string \<Rightarrow> bool" where
  "startsWith s [] = True"
| "startsWith [] (q # qs) = False"
| "startsWith (c # cs) (q # qs) = (c = q \<and> startsWith cs qs)"

fun includesStr :: "string \<Rightarrow> string \<Rightarrow> bool" where
  "includesStr [] q = (q = [])"
| "includesStr (c # cs) q = (startsWith (c # cs) q \<or> includesStr cs q)"

definition endsWith :: "string \<Rightarrow> string \<Rightarrow> bool" where
  "endsWith s q = startsWith (rev s) (rev q)"

section \<open>Protocol: the data model\<close>

record Rect =
  rect_x :: int
  rect_y :: int
  rect_w :: int
  rect_h :: int

text \<open>\<open>rectN\<close> has the same shape as \<open>rect\<close> but carries viewport-normalised fractions.\<close>

record RectN =
  rectN_x :: real
  rectN_y :: real
  rectN_w :: real
  rectN_h :: real

record ActionState =
  st_disabled :: bool
  st_expanded :: bool
  st_checked :: bool
  st_selected :: bool
  st_focused :: bool

record ActionContext =
  ctx_inModal :: bool
  ctx_inNav :: bool
  ctx_inForm :: bool
  ctx_depth :: int
  ctx_formId :: "string option"

record StyleHint =
  sh_isPrimary :: bool
  sh_isDanger :: bool
  sh_cursorPointer :: bool
  sh_backgroundColor :: "string option"
  sh_textColor :: "string option"

record HitPoint =
  hit_cx :: int
  hit_cy :: int

record ActionCandidate =
  c_id :: string
  c_rect :: Rect
  c_rectN :: RectN
  c_role :: string
  c_tag :: string
  c_name :: string
  c_aria :: string
  c_placeholder :: "string option"
  c_value :: "string option"
  c_href :: "string option"
  c_state :: ActionState
  c_ctx :: ActionContext
  c_styleHint :: StyleHint
  c_hit :: HitPoint
  c_occluded :: bool
  c_frameId :: "int option"

text \<open>
  \<open>Partial<ActionCandidate & { id: string }>\<close>: every property may be absent (\<open>None\<close>).
  A property that is optional in \<open>ActionCandidate\<close> can also be present with the value
  \<open>undefined\<close> (\<open>Some None\<close>), which is what \<open>changes.value = newCandidate.value\<close> stores when
  the new value is undefined.
\<close>

record PartialCandidate =
  u_id :: "string option"
  u_rect :: "Rect option"
  u_rectN :: "RectN option"
  u_role :: "string option"
  u_tag :: "string option"
  u_name :: "string option"
  u_aria :: "string option"
  u_placeholder :: "string option option"
  u_value :: "string option option"
  u_href :: "string option option"
  u_state :: "ActionState option"
  u_ctx :: "ActionContext option"
  u_styleHint :: "StyleHint option"
  u_hit :: "HitPoint option"
  u_occluded :: "bool option"
  u_frameId :: "int option option"

record Viewport =
  vp_width :: int
  vp_height :: int

record ActionMapDelta =
  dl_tabId :: int
  dl_frameId :: int
  dl_timestamp :: int
  dl_added :: "ActionCandidate list"
  dl_removed :: "string list"
  dl_updated :: "PartialCandidate list"

section \<open>World state store\<close>

text \<open>
  A JavaScript \<open>Map\<close> is an association list in insertion order with distinct keys:
  \<open>get\<close> is \<^const>\<open>map_of\<close>, \<open>set\<close> is \<^const>\<open>AList.update\<close> (an existing key keeps its
  position, a new key goes to the end) and \<open>delete\<close> is \<^const>\<open>AList.delete\<close>.
\<close>

record TabState =
  ts_tabId :: int
  ts_url :: string
  ts_viewport :: Viewport
  ts_userAgent :: string
  ts_connectedAt :: int
  ts_lastUpdate :: int
  ts_candidates :: "(string \<times> ActionCandidate) list"
  ts_deltaHistory :: "ActionMapDelta list"

record WorldState =
  ws_tabs :: "(int \<times> TabState) list"
  ws_pointer :: "(int \<times> int \<times> int) option"

definition MAX_DELTA_HISTORY :: nat where
  "MAX_DELTA_HISTORY = 50"

text \<open>\<open>Object.assign(existing, update)\<close>: every property present in the update overwrites.\<close>

definition orKeep :: "'a option \<Rightarrow> 'a \<Rightarrow> 'a" where
  "orKeep p old = (case p of None \<Rightarrow> old | Some v \<Rightarrow> v)"

definition objectAssign :: "ActionCandidate \<Rightarrow> PartialCandidate \<Rightarrow> ActionCandidate" where
  "objectAssign c u =
     \<lparr> c_id = orKeep (u_id u) (c_id c),
       c_rect = orKeep (u_rect u) (c_rect c),
       c_rectN = orKeep (u_rectN u) (c_rectN c),
       c_role = orKeep (u_role u) (c_role c),
       c_tag = orKeep (u_tag u) (c_tag c),
       c_name = orKeep (u_name u) (c_name c),
       c_aria = orKeep (u_aria u) (c_aria c),
       c_placeholder = orKeep (u_placeholder u) (c_placeholder c),
       c_value = orKeep (u_value u) (c_value c),
       c_href = orKeep (u_href u) (c_href c),
       c_state = orKeep (u_state u) (c_state c),
       c_ctx = orKeep (u_ctx u) (c_ctx c),
       c_styleHint = orKeep (u_styleHint u) (c_styleHint c),
       c_hit = orKeep (u_hit u) (c_hit c),
       c_occluded = orKeep (u_occluded u) (c_occluded c),
       c_frameId = orKeep (u_frameId u) (c_frameId c) \<rparr>"

text \<open>The three loops of \<open>handleDelta\<close> over the candidate map.\<close>

fun applyRemovals :: "string list \<Rightarrow> (string \<times> ActionCandidate) list \<Rightarrow> (string \<times> ActionCandidate) list" where
  "applyRemovals [] m = m"
| "applyRemovals (i # is) m = applyRemovals is (AList.delete i m)"

fun applyAdditions :: "ActionCandidate list \<Rightarrow> (string \<times> ActionCandidate) list \<Rightarrow> (string \<times> ActionCandidate) list" where
  "applyAdditions [] m = m"
| "applyAdditions (c # cs) m = applyAdditions cs (AList.update (c_id c) c m)"

text \<open>
  \<open>if (!update.id) continue\<close> skips an update whose id is absent or the empty string;
  \<open>if (existing)\<close> skips an update for an id that is not in the map. The merged object stays
  under the same key, at the same position.
\<close>

definition applyUpdate :: "PartialCandidate \<Rightarrow> (string \<times> ActionCandidate) list \<Rightarrow> (string \<times> ActionCandidate) list" where
  "applyUpdate u m =
     (case u_id u of
        None \<Rightarrow> m
      | Some i \<Rightarrow>
          if i = [] then m
          else (case map_of m i of
                  None \<Rightarrow> m
                | Some existing \<Rightarrow> AList.update i (objectAssign existing u) m))"

fun applyUpdates :: "PartialCandidate list \<Rightarrow> (string \<times> ActionCandidate) list \<Rightarrow> (string \<times> ActionCandidate) list" where
  "applyUpdates [] m = m"
| "applyUpdates (u # us) m = applyUpdates us (applyUpdate u m)"

text \<open>\<open>push\<close> followed by one \<open>shift\<close> when the history has grown past the limit.\<close>

definition pushHistory :: "ActionMapDelta \<Rightarrow> ActionMapDelta list \<Rightarrow> ActionMapDelta list" where
  "pushHistory d hist =
     (let hist' = hist @ [d]
      in if length hist' > MAX_DELTA_HISTORY then tl hist' else hist')"

definition getTab :: "WorldState \<Rightarrow> int \<Rightarrow> TabState option" where
  "getTab s tabId = map_of (ws_tabs s) tabId"

text \<open>
  \<open>handleDelta\<close> mutates the tab state found in the global store and returns it, or returns
  \<open>null\<close> for an unknown tab. The clock reading \<open>Date.now()\<close> is the argument \<open>now\<close>.
\<close>

definition handleDelta :: "int \<Rightarrow> ActionMapDelta \<Rightarrow> WorldState \<Rightarrow> TabState option \<times> WorldState" where
  "handleDelta now delta s =
     (case map_of (ws_tabs s) (dl_tabId delta) of
        None \<Rightarrow> (None, s)
      | Some tabState \<Rightarrow>
          let cands = applyUpdates (dl_updated delta)
                        (applyAdditions (dl_added delta)
                          (applyRemovals (dl_removed delta) (ts_candidates tabState)));
              tabState' = tabState\<lparr> ts_candidates := cands,
                                    ts_lastUpdate := now,
                                    ts_deltaHistory := pushHistory delta (ts_deltaHistory tabState) \<rparr>
          in (Some tabState', s\<lparr> ws_tabs := AList.update (dl_tabId delta) tabState' (ws_tabs s) \<rparr>))"


definition getCandidates :: "WorldState \<Rightarrow> int \<Rightarrow> ActionCandidate list" where
  "getCandidates s tabId =
     (case map_of (ws_tabs s) tabId of None \<Rightarrow> [] | Some tabState \<Rightarrow> map snd (ts_candidates tabState))"

record Filters =
  f_role :: "string option"
  f_tag :: "string option"
  f_visible :: "bool option"
  f_enabled :: "bool option"

text \<open>
  The predicate of the \<open>filter\<close> callback in \<open>searchCandidates\<close>. A string is truthy when it is
  present and not empty, so \<open>filters?.role && \<dots>\<close> tests the role only for a non-empty role
  filter; \<open>filters?.visible !== undefined\<close> tests presence alone.
\<close>

definition truthy :: "string option \<Rightarrow> bool" where
  "truthy p = (case p of None \<Rightarrow> False | Some v \<Rightarrow> v \<noteq> [])"

definition searchKeeps :: "string \<Rightarrow> Filters option \<Rightarrow> ActionCandidate \<Rightarrow> bool" where
  "searchKeeps search filters c =
     (let query = toLowerCase search in
      if search \<noteq> [] \<and> \<not> includesStr (toLowerCase (c_name c)) query
                     \<and> \<not> includesStr (toLowerCase (c_aria c)) query
                     \<and> \<not> includesStr (toLowerCase (c_id c)) query
      then False
      else (case filters of
              None \<Rightarrow> True
            | Some f \<Rightarrow>
                if truthy (f_role f) \<and> Some (c_role c) \<noteq> f_role f then False
                else if truthy (f_tag f) \<and> Some (c_tag c) \<noteq> f_tag f then False
                else if f_visible f \<noteq> None \<and> Some (c_occluded c) = f_visible f then False
                else if f_enabled f \<noteq> None \<and> Some (st_disabled (c_state c)) = f_enabled f then False
                else True))"

definition searchCandidates :: "WorldState \<Rightarrow> int \<Rightarrow> string \<Rightarrow> Filters option \<Rightarrow> ActionCandidate list" where
  "searchCandidates s tabId search filters = filter (searchKeeps search filters) (getCandidates s tabId)"

section \<open>Policy\<close>

datatype DomainMode = ModeAllowlist | ModeBlocklist | ModeAll

record PolicyConfig =
  pc_domainMode :: DomainMode
  pc_domainList :: "string list"
  pc_blockPaymentActions :: bool
  pc_blockDeleteActions :: bool
  pc_requireUserPresent :: bool
  pc_maxCommandsPerSecond :: int
  pc_maxCommandsPerMinute :: int
  pc_logAllCommands :: bool

definition defaultConfig :: PolicyConfig where
  "defaultConfig =
     \<lparr> pc_domainMode = ModeAll, pc_domainList = [],
       pc_blockPaymentActions = True, pc_blockDeleteActions = True, pc_requireUserPresent = False,
       pc_maxCommandsPerSecond = 10, pc_maxCommandsPerMinute = 300, pc_logAllCommands = True \<rparr>"

text \<open>The module state of \<open>policy.ts\<close>: the configuration and the command history.\<close>

record PolicyState =
  ps_config :: PolicyConfig
  ps_commandHistory :: "int list"

text \<open>
  The patterns are regular expressions with the \<open>i\<close> flag made of literal characters and
  \<open>\s*\<close>. A literal matches a character that is equal up to case; \<open>\s\<close> matches the white
  space below \<open>0x100\<close>: tab, line feed, vertical tab, form feed, carriage return, space and
  the no-break space \<open>0xA0\<close>. \<open>RegExp.prototype.test\<close> looks for a match starting at any
  position.
\<close>

datatype RegexItem = Lit char | WsStar

definition isSpace :: "char \<Rightarrow> bool" where
  "isSpace c = (c \<in> set [CHR 0x09, CHR 0x0A, CHR 0x0B, CHR 0x0C, CHR 0x0D, CHR '' '', CHR 0xA0])"

fun matchHere :: "RegexItem list \<Rightarrow> string \<Rightarrow> bool" where
  "matchHere [] s = True"
| "matchHere (Lit p # ps) [] = False"
| "matchHere (Lit p # ps) (c # cs) = (lowerChar c = lowerChar p \<and> matchHere ps cs)"
| "matchHere (WsStar # ps) [] = matchHere ps []"
| "matchHere (WsStar # ps) (c # cs) = (matchHere ps (c # cs) \<or> (isSpace c \<and> matchHere (WsStar # ps) cs))"

fun regexTest :: "RegexItem list \<Rightarrow> string \<Rightarrow> bool" where
  "regexTest p [] = matchHere p []"
| "regexTest p (c # cs) = (matchHere p (c # cs) \<or> regexTest p cs)"

definition lit :: "string \<Rightarrow> RegexItem list" where
  "lit s = map Lit s"

definition PAYMENT_PATTERNS :: "RegexItem list list" where
  "PAYMENT_PATTERNS =
     [ lit ''checkout'',
       lit ''payment'',
       lit ''purchase'',
       lit ''buy'' @ [WsStar] @ lit ''now'',
       lit ''place'' @ [WsStar] @ lit ''order'',
       lit ''confirm'' @ [WsStar] @ lit ''order'',
       lit ''submit'' @ [WsStar] @ lit ''order'',
       lit ''pay'' @ [WsStar] @ lit ''$'' ]"

definition DELETE_PATTERNS :: "RegexItem list list" where
  "DELETE_PATTERNS =
     [ lit ''delete'',
       lit ''remove'',
       lit ''clear'' @ [WsStar] @ lit ''all'',
       lit ''destroy'',
       lit ''erase'' ]"

text \<open>
  \<open>new URL(url).hostname\<close> belongs to the platform, not to the repository: it is the parameter
  \<open>hostname\<close>, which returns \<open>None\<close> where the constructor throws.
\<close>

definition isDomainAllowed :: "(string \<Rightarrow> string option) \<Rightarrow> PolicyConfig \<Rightarrow> string \<Rightarrow> bool" where
  "isDomainAllowed hostname config url =
     (if pc_domainMode config = ModeAll then True
      else (case hostname url of
              None \<Rightarrow> False
            | Some h \<Rightarrow>
                let domain = toLowerCase h;
                    matches = list_ex (\<lambda>d. domain = toLowerCase d \<or> endsWith domain (''.'' @ toLowerCase d))
                                (pc_domainList config)
                in if pc_domainMode config = ModeAllowlist then matches else \<not> matches))"

definition isPaymentAction :: "PolicyConfig \<Rightarrow> string option \<Rightarrow> bool" where
  "isPaymentAction config elementName =
     (if \<not> pc_blockPaymentActions config then False
      else if \<not> truthy elementName then False
      else list_ex (\<lambda>pattern. regexTest pattern (the elementName)) PAYMENT_PATTERNS)"

definition isDeleteAction :: "PolicyConfig \<Rightarrow> string option \<Rightarrow> bool" where
  "isDeleteAction config elementName =
     (if \<not> pc_blockDeleteActions config then False
      else if \<not> truthy elementName then False
      else list_ex (\<lambda>pattern. regexTest pattern (the elementName)) DELETE_PATTERNS)"

record RateCheck =
  rc_allowed :: bool
  rc_reason :: "string option"

text \<open>
  \<open>checkRateLimits\<close> first shifts the entries older than one minute off the head of the
  history (the \<open>while\<close> loop is \<^const>\<open>dropWhile\<close>), which is a change of the module state,
  then compares the two counts with the limits.
\<close>

definition checkRateLimits :: "int \<Rightarrow> PolicyState \<Rightarrow> RateCheck \<times> PolicyState" where
  "checkRateLimits now ps =
     (let oneMinuteAgo = now - 60000;
          history = dropWhile (\<lambda>t. t < oneMinuteAgo) (ps_commandHistory ps);
          ps' = ps\<lparr> ps_commandHistory := history \<rparr>
      in if int (length history) \<ge> pc_maxCommandsPerMinute (ps_config ps)
         then (\<lparr> rc_allowed = False, rc_reason = Some ''Rate limit exceeded (per minute)'' \<rparr>, ps')
         else
           let oneSecondAgo = now - 1000;
               recentCommands = length (filter (\<lambda>t. t > oneSecondAgo) history)
           in if int recentCommands \<ge> pc_maxCommandsPerSecond (ps_config ps)
              then (\<lparr> rc_allowed = False, rc_reason = Some ''Rate limit exceeded (per second)'' \<rparr>, ps')
              else (\<lparr> rc_allowed = True, rc_reason = None \<rparr>, ps'))"

definition recordCommand :: "int \<Rightarrow> PolicyState \<Rightarrow> PolicyState" where
  "recordCommand now ps = ps\<lparr> ps_commandHistory := ps_commandHistory ps @ [now] \<rparr>"

datatype CommandType =
  CmdMoveMouse | CmdHover | CmdClick | CmdType | CmdScroll | CmdFocus | CmdSelect | CmdQuery

text \<open>
  A command as the gateway reads it: the tag, the \<open>commandId\<close> (absent until assigned), the
  tab and the target \<open>id\<close>, which only some command types carry. The operation-specific
  fields are forwarded unread and are left out.
\<close>

record Command =
  cmd_type :: CommandType
  cmd_commandId :: "string option"
  cmd_tabId :: int
  cmd_id :: "string option"

record PolicyCheckResult =
  pr_allowed :: bool
  pr_reason :: "string option"
  pr_warnings :: "string list option"

text \<open>
  \<open>checkCommand\<close> with the clock reading \<open>now\<close>; console logging is not modelled. One reading
  of the clock serves \<open>checkRateLimits\<close> and \<open>recordCommand\<close>.
\<close>

definition checkCommand ::
  "(string \<Rightarrow> string option) \<Rightarrow> int \<Rightarrow> Command \<Rightarrow> string option \<Rightarrow> string option \<Rightarrow> PolicyState
     \<Rightarrow> PolicyCheckResult \<times> PolicyState" where
  "checkCommand hostname now command tabUrl elementName ps =
     (if truthy tabUrl \<and> \<not> isDomainAllowed hostname (ps_config ps) (the tabUrl)
      then (\<lparr> pr_allowed = False, pr_reason = Some (''Domain not allowed: '' @ the tabUrl),
               pr_warnings = None \<rparr>, ps)
      else
        let (rateCheck, ps1) = checkRateLimits now ps
        in if \<not> rc_allowed rateCheck
           then (\<lparr> pr_allowed = False, pr_reason = rc_reason rateCheck, pr_warnings = None \<rparr>, ps1)
           else if (cmd_type command = CmdClick \<or> cmd_type command = CmdType)
                   \<and> isPaymentAction (ps_config ps1) elementName
           then (\<lparr> pr_allowed = False,
                    pr_reason = Some (''Payment action blocked: '' @ the elementName),
                    pr_warnings = None \<rparr>, ps1)
           else if (cmd_type command = CmdClick \<or> cmd_type command = CmdType)
                   \<and> isDeleteAction (ps_config ps1) elementName
           then (\<lparr> pr_allowed = False,
                    pr_reason = Some (''Delete action blocked: '' @ the elementName),
                    pr_warnings = None \<rparr>, ps1)
           else (\<lparr> pr_allowed = True, pr_reason = None, pr_warnings = Some [] \<rparr>,
                 recordCommand now ps1))"


section \<open>Gateway: the command pipeline\<close>

record Verification =
  v_id :: string
  v_stillVisible :: bool
  v_hitTestOk :: bool
  v_rectChanged :: bool
  v_newRect :: "Rect option"

datatype AckStatus = AckOk | AckFail string | AckVerify Verification

text \<open>
  A command acknowledgment. \<open>ack_tabId\<close> is the property that \<open>(message as any).tabId\<close> reads in
  \<open>broadcastToRepl\<close>; the acks that the gateway builds itself do not have it. The \<open>result\<close>
  payload of an \<open>ok\<close> ack is forwarded unread and is left out.
\<close>

record CommandAck =
  ack_commandId :: string
  ack_status :: AckStatus
  ack_timestamp :: int
  ack_tabId :: "int option"

record ReplState =
  rs_open :: bool
  rs_subscribedTabId :: "int option"

text \<open>
  Promises and timers are handles. The call of \<open>executeCommand\<close> that takes handle \<open>p\<close>
  creates promise \<open>p\<close> and, when it gets that far, the timer with the same number. A pending
  entry holds the promise's \<open>resolve\<close> and the timer; an armed timer holds what its callback
  closes over: the command id and \<open>resolve\<close>.
\<close>

record PendingCommand =
  pend_resolve :: nat
  pend_timeout :: nat

record Timer =
  tm_deadline :: int
  tm_commandId :: string
  tm_resolve :: nat

text \<open>
  The state of \<open>server.ts\<close>: the two stores it imports, the connection sets with the
  \<open>readyState\<close> of each socket, the pending table and the armed timers, and three logs: every
  call of a \<open>resolve\<close> function, every frame sent to an extension socket and every ack sent
  to a REPL socket by \<open>broadcastToRepl\<close>. \<open>gw_issued\<close> records which command each promise was
  created for. The continuation of a promise (the \<open>ws.send\<close> of the \<open>act\<close> handler, or the
  HTTP response) runs once the promise is resolved and is not modelled.
\<close>

record Gateway =
  gw_world :: WorldState
  gw_policy :: PolicyState
  gw_extensionConnections :: "(nat \<times> bool) list"
  gw_replConnections :: "(nat \<times> ReplState) list"
  gw_pendingCommands :: "(string \<times> PendingCommand) list"
  gw_timers :: "(nat \<times> Timer) list"
  gw_nextHandle :: nat
  gw_issued :: "(nat \<times> Command) list"
  gw_resolved :: "(nat \<times> CommandAck) list"
  gw_toExtension :: "(nat \<times> Command) list"
  gw_toRepl :: "(nat \<times> CommandAck) list"

definition sendToExtension :: "Command \<Rightarrow> Gateway \<Rightarrow> bool \<times> Gateway" where
  "sendToExtension message g =
     (case find (\<lambda>c. snd c) (gw_extensionConnections g) of
        None \<Rightarrow> (False, g)
      | Some c \<Rightarrow> (True, g\<lparr> gw_toExtension := gw_toExtension g @ [(fst c, message)] \<rparr>))"

definition replReceives :: "CommandAck \<Rightarrow> ReplState \<Rightarrow> bool" where
  "replReceives message st =
     (if \<not> rs_open st then False
      else if rs_subscribedTabId st \<noteq> None
              \<and> ack_tabId message \<noteq> None \<and> ack_tabId message \<noteq> rs_subscribedTabId st
      then False
      else True)"

definition broadcastToRepl :: "CommandAck \<Rightarrow> Gateway \<Rightarrow> Gateway" where
  "broadcastToRepl message g =
     g\<lparr> gw_toRepl := gw_toRepl g @
          map (\<lambda>(ws, st). (ws, message))
            (filter (\<lambda>(ws, st). replReceives message st) (gw_replConnections g)) \<rparr>"

definition handleCommandAck :: "CommandAck \<Rightarrow> Gateway \<Rightarrow> Gateway" where
  "handleCommandAck ack g =
     broadcastToRepl ack
       (case map_of (gw_pendingCommands g) (ack_commandId ack) of
          None \<Rightarrow> g
        | Some pending \<Rightarrow>
            g\<lparr> gw_timers := AList.delete (pend_timeout pending) (gw_timers g),
               gw_resolved := gw_resolved g @ [(pend_resolve pending, ack)],
               gw_pendingCommands := AList.delete (ack_commandId ack) (gw_pendingCommands g) \<rparr>)"

definition failAck :: "string \<Rightarrow> string \<Rightarrow> int \<Rightarrow> CommandAck" where
  "failAck commandId reason now =
     \<lparr> ack_commandId = commandId, ack_status = AckFail reason, ack_timestamp = now, ack_tabId = None \<rparr>"

text \<open>
  The executor function of the promise in \<open>executeCommand\<close>, which runs synchronously.
  \<open>now\<close> is the clock reading and \<open>gen\<close> the value \<open>generateCommandId()\<close> would return.
  \<open>assignedId\<close> is the id after \<open>if (!command.commandId) command.commandId = \<dots>\<close>;
  \<open>targetUrl\<close> is \<open>tab?.url\<close> and \<open>targetName\<close> is \<open>candidate?.name\<close> for
  \<open>tab?.candidates.get(command.id)\<close>; \<open>policyCheck\<close> is the call of \<open>checkCommand\<close>.
\<close>

definition assignedId :: "string \<Rightarrow> Command \<Rightarrow> string" where
  "assignedId gen command = (if truthy (cmd_commandId command) then the (cmd_commandId command) else gen)"

definition targetUrl :: "Gateway \<Rightarrow> Command \<Rightarrow> string option" where
  "targetUrl g command = map_option ts_url (getTab (gw_world g) (cmd_tabId command))"

definition targetName :: "Gateway \<Rightarrow> Command \<Rightarrow> string option" where
  "targetName g command =
     (case getTab (gw_world g) (cmd_tabId command) of
        None \<Rightarrow> None
      | Some t \<Rightarrow> (case cmd_id command of
                     None \<Rightarrow> None
                   | Some i \<Rightarrow> map_option c_name (map_of (ts_candidates t) i)))"

definition policyCheck ::
  "(string \<Rightarrow> string option) \<Rightarrow> int \<Rightarrow> string \<Rightarrow> Command \<Rightarrow> Gateway
     \<Rightarrow> PolicyCheckResult \<times> PolicyState" where
  "policyCheck hostname now gen command g =
     checkCommand hostname now (command\<lparr> cmd_commandId := Some (assignedId gen command) \<rparr>)
       (targetUrl g command) (targetName g command) (gw_policy g)"

definition executeCommand ::
  "(string \<Rightarrow> string option) \<Rightarrow> int \<Rightarrow> string \<Rightarrow> Command \<Rightarrow> Gateway \<Rightarrow> Gateway" where
  "executeCommand hostname now gen command0 g =
     (let p = gw_nextHandle g;
          commandId = assignedId gen command0;
          command = command0\<lparr> cmd_commandId := Some commandId \<rparr>;
          checked = policyCheck hostname now gen command0 g;
          policyResult = fst checked;
          g1 = g\<lparr> gw_policy := snd checked, gw_nextHandle := p + 1,
                  gw_issued := gw_issued g @ [(p, command)] \<rparr>
      in if \<not> pr_allowed policyResult
         then g1\<lparr> gw_resolved := gw_resolved g1 @
                   [(p, failAck commandId
                          (if truthy (pr_reason policyResult) then the (pr_reason policyResult)
                           else ''Policy denied'') now)] \<rparr>
         else
           let sent = sendToExtension command g1
           in if \<not> fst sent
              then (snd sent)\<lparr> gw_resolved := gw_resolved (snd sent) @
                        [(p, failAck commandId ''No extension connected'' now)] \<rparr>
              else (snd sent)\<lparr> gw_timers := AList.update p
                                      \<lparr> tm_deadline = now + 30000, tm_commandId = commandId, tm_resolve = p \<rparr>
                                      (gw_timers (snd sent)),
                        gw_pendingCommands := AList.update commandId
                                      \<lparr> pend_resolve = p, pend_timeout = p \<rparr>
                                      (gw_pendingCommands (snd sent)) \<rparr>)"

text \<open>
  The callback of \<open>setTimeout\<close>. The runtime calls it only for a timer that is still armed, not
  before its deadline, and then the timer is gone.
\<close>

definition fireTimeout :: "nat \<Rightarrow> int \<Rightarrow> Gateway \<Rightarrow> Gateway" where
  "fireTimeout t now g =
     (case map_of (gw_timers g) t of
        None \<Rightarrow> g
      | Some timer \<Rightarrow>
          if now < tm_deadline timer then g
          else g\<lparr> gw_timers := AList.delete t (gw_timers g),
                  gw_pendingCommands := AList.delete (tm_commandId timer) (gw_pendingCommands g),
                  gw_resolved := gw_resolved g @
                    [(tm_resolve timer, failAck (tm_commandId timer) ''Command timeout'' now)] \<rparr>)"

text \<open>
  The gateway runs one handler to completion per event. \<open>EvOther\<close> stands for every other
  handler (telemetry, sockets opening and closing, policy updates): they write the world
  state, the policy state and the connection sets, and nothing else.
\<close>

datatype Event =
  EvAct Command int string
| EvAgentAck CommandAck
| EvTimeout nat int
| EvOther WorldState PolicyState "(nat \<times> bool) list" "(nat \<times> ReplState) list"

fun step :: "(string \<Rightarrow> string option) \<Rightarrow> Event \<Rightarrow> Gateway \<Rightarrow> Gateway" where
  "step hostname (EvAct command now gen) g = executeCommand hostname now gen command g"
| "step hostname (EvAgentAck ack) g = handleCommandAck ack g"
| "step hostname (EvTimeout t now) g = fireTimeout t now g"
| "step hostname (EvOther world policy exts repls) g =
     g\<lparr> gw_world := world, gw_policy := policy,
        gw_extensionConnections := exts, gw_replConnections := repls \<rparr>"

fun run :: "(string \<Rightarrow> string option) \<Rightarrow> Event list \<Rightarrow> Gateway \<Rightarrow> Gateway" where
  "run hostname [] g = g"
| "run hostname (e # es) g = run hostname es (step hostname e g)"

text \<open>The gateway at start-up: nothing pending, no timer, no promise created.\<close>

definition startGateway ::
  "WorldState \<Rightarrow> PolicyState \<Rightarrow> (nat \<times> bool) list \<Rightarrow> (nat \<times> ReplState) list \<Rightarrow> Gateway" where
  "startGateway world policy exts repls =
     \<lparr> gw_world = world, gw_policy = policy,
       gw_extensionConnections = exts, gw_replConnections = repls,
       gw_pendingCommands = [], gw_timers = [], gw_nextHandle = 0,
       gw_issued = [], gw_resolved = [], gw_toExtension = [], gw_toRepl = [] \<rparr>"


section \<open>Watchers: the per-candidate diff\<close>

definition noChanges :: PartialCandidate where
  "noChanges =
     \<lparr> u_id = None, u_rect = None, u_rectN = None, u_role = None, u_tag = None, u_name = None,
       u_aria = None, u_placeholder = None, u_value = None, u_href = None, u_state = None,
       u_ctx = None, u_styleHint = None, u_hit = None, u_occluded = None, u_frameId = None \<rparr>"

definition rectDiffers :: "Rect \<Rightarrow> Rect \<Rightarrow> bool" where
  "rectDiffers a b =
     (\<bar>rect_x a - rect_x b\<bar> > 2 \<or> \<bar>rect_y a - rect_y b\<bar> > 2 \<or>
      \<bar>rect_w a - rect_w b\<bar> > 2 \<or> \<bar>rect_h a - rect_h b\<bar> > 2)"

definition stateDiffers :: "ActionState \<Rightarrow> ActionState \<Rightarrow> bool" where
  "stateDiffers a b =
     (st_disabled a \<noteq> st_disabled b \<or> st_expanded a \<noteq> st_expanded b \<or>
      st_checked a \<noteq> st_checked b \<or> st_selected a \<noteq> st_selected b \<or>
      st_focused a \<noteq> st_focused b)"

definition ctxDiffers :: "ActionContext \<Rightarrow> ActionContext \<Rightarrow> bool" where
  "ctxDiffers a b = (ctx_inModal a \<noteq> ctx_inModal b \<or> ctx_inNav a \<noteq> ctx_inNav b)"

text \<open>
  \<open>diffCandidate\<close> fills \<open>changes\<close> in six steps and returns it, or \<open>null\<close> when no step
  fired.
\<close>

definition diffCandidate :: "ActionCandidate \<Rightarrow> ActionCandidate \<Rightarrow> PartialCandidate option" where
  "diffCandidate oldCandidate newCandidate =
     (let c1 = (if rectDiffers (c_rect oldCandidate) (c_rect newCandidate)
                then noChanges\<lparr> u_rect := Some (c_rect newCandidate),
                                 u_rectN := Some (c_rectN newCandidate),
                                 u_hit := Some (c_hit newCandidate) \<rparr>
                else noChanges);
          c2 = (if stateDiffers (c_state oldCandidate) (c_state newCandidate)
                then c1\<lparr> u_state := Some (c_state newCandidate) \<rparr> else c1);
          c3 = (if c_name oldCandidate \<noteq> c_name newCandidate
                then c2\<lparr> u_name := Some (c_name newCandidate) \<rparr> else c2);
          c4 = (if c_value oldCandidate \<noteq> c_value newCandidate
                then c3\<lparr> u_value := Some (c_value newCandidate) \<rparr> else c3);
          c5 = (if c_occluded oldCandidate \<noteq> c_occluded newCandidate
                then c4\<lparr> u_occluded := Some (c_occluded newCandidate) \<rparr> else c4);
          c6 = (if ctxDiffers (c_ctx oldCandidate) (c_ctx newCandidate)
                then c5\<lparr> u_ctx := Some (c_ctx newCandidate) \<rparr> else c5);
          hasChanges =
            (rectDiffers (c_rect oldCandidate) (c_rect newCandidate) \<or>
             stateDiffers (c_state oldCandidate) (c_state newCandidate) \<or>
             c_name oldCandidate \<noteq> c_name newCandidate \<or>
             c_value oldCandidate \<noteq> c_value newCandidate \<or>
             c_occluded oldCandidate \<noteq> c_occluded newCandidate \<or>
             ctxDiffers (c_ctx oldCandidate) (c_ctx newCandidate))
      in if hasChanges then Some c6 else None)"

text \<open>\<open>new Map(currentCandidates.map(c => [c.id, c]))\<close>.\<close>

definition mapFromCandidates :: "ActionCandidate list \<Rightarrow> (string \<times> ActionCandidate) list" where
  "mapFromCandidates cs = applyAdditions cs []"

text \<open>
  The first loop of \<open>computeDelta\<close>, over the previous candidates: an id missing from the
  current map is removed; otherwise a non-null diff is pushed as \<open>{ id, ...diff }\<close>.
\<close>

fun scanPrevious ::
  "(string \<times> ActionCandidate) list \<Rightarrow> (string \<times> ActionCandidate) list
     \<Rightarrow> string list \<times> PartialCandidate list" where
  "scanPrevious currentMap [] = ([], [])"
| "scanPrevious currentMap ((i, oldCandidate) # prev) =
     (let (removed, updated) = scanPrevious currentMap prev
      in case map_of currentMap i of
           None \<Rightarrow> (i # removed, updated)
         | Some newCandidate \<Rightarrow>
             (case diffCandidate oldCandidate newCandidate of
                None \<Rightarrow> (removed, updated)
              | Some diff \<Rightarrow> (removed, diff\<lparr> u_id := Some (orKeep (u_id diff) i) \<rparr> # updated)))"

definition computeDelta ::
  "int \<Rightarrow> (string \<times> ActionCandidate) list \<Rightarrow> ActionCandidate list \<Rightarrow> ActionMapDelta" where
  "computeDelta now previousCandidates currentCandidates =
     (let currentMap = mapFromCandidates currentCandidates;
          (removed, updated) = scanPrevious currentMap previousCandidates;
          added = filter (\<lambda>candidate. map_of previousCandidates (c_id candidate) = None) currentCandidates
      in \<lparr> dl_tabId = 0, dl_frameId = 0, dl_timestamp = now,
           dl_added = added, dl_removed = removed, dl_updated = updated \<rparr>)"

section \<open>Executor: acknowledgments\<close>

text \<open>
  What \<open>ackVerify\<close> reads from the page for an element: its bounding client rect and how the
  element returned by \<open>document.elementFromPoint\<close> at the rect's centre relates to it.
\<close>

datatype TopElement = TopSame | TopDescendant | TopAncestor | TopUnrelated | TopNone

record Element =
  el_left :: real
  el_top :: real
  el_width :: real
  el_height :: real
  el_topEl :: TopElement

text \<open>\<open>Math.round\<close> rounds to the nearest integer, a half upwards.\<close>

definition mathRound :: "real \<Rightarrow> int" where
  "mathRound r = \<lfloor>r + 1 / 2\<rfloor>"

definition ackFail :: "int \<Rightarrow> string \<Rightarrow> string \<Rightarrow> CommandAck" where
  "ackFail now commandId reason =
     \<lparr> ack_commandId = commandId, ack_status = AckFail reason, ack_timestamp = now, ack_tabId = None \<rparr>"

definition ackVerify :: "int \<Rightarrow> string \<Rightarrow> string \<Rightarrow> Element option \<Rightarrow> CommandAck" where
  "ackVerify now commandId i element =
     (let stillVisible = (element \<noteq> None);
          hitTestOk0 = False;
          rectChanged = False;
          (hitTestOk, newRect) =
            (case element of
               None \<Rightarrow> (hitTestOk0, None)
             | Some el \<Rightarrow>
                 (el_topEl el = TopSame \<or> el_topEl el = TopDescendant \<or> el_topEl el = TopAncestor,
                  Some \<lparr> rect_x = mathRound (el_left el), rect_y = mathRound (el_top el),
                         rect_w = mathRound (el_width el), rect_h = mathRound (el_height el) \<rparr>))
      in \<lparr> ack_commandId = commandId,
           ack_status = AckVerify \<lparr> v_id = i, v_stillVisible = stillVisible, v_hitTestOk = hitTestOk,
                                    v_rectChanged = rectChanged, v_newRect = newRect \<rparr>,
           ack_timestamp = now, ack_tabId = None \<rparr>)"

datatype MouseButton = ButtonLeft | ButtonRight | ButtonMiddle

datatype Modifier = ModCtrl | ModShift | ModAlt | ModMeta

record HoverCommand =
  hv_commandId :: string
  hv_tabId :: int
  hv_id :: string
  hv_duration :: "int option"

record ClickCommand =
  ck_commandId :: string
  ck_tabId :: int
  ck_id :: string
  ck_button :: "MouseButton option"
  ck_modifiers :: "Modifier list option"
  ck_clickCount :: "int option"

text \<open>
  \<open>executeHover\<close> and \<open>executeClick\<close>. \<open>findElement\<close> throws for an unknown id and the
  \<open>catch\<close> turns the error into a fail ack. \<open>page\<close> is \<open>getElementById\<close> on the page as it is
  when the ack is built, after the events have been dispatched. The dispatched events do
  not reach the ack and are not modelled; an exception from dispatching them would end in
  the same \<open>catch\<close>, with a fail ack.
\<close>

definition findElement :: "(string \<Rightarrow> Element option) \<Rightarrow> string \<Rightarrow> string + Element" where
  "findElement page i =
     (case page i of None \<Rightarrow> Inl (''Element not found: '' @ i) | Some el \<Rightarrow> Inr el)"

definition executeHover :: "(string \<Rightarrow> Element option) \<Rightarrow> int \<Rightarrow> HoverCommand \<Rightarrow> CommandAck" where
  "executeHover page now cmd =
     (case findElement page (hv_id cmd) of
        Inl message \<Rightarrow> ackFail now (hv_commandId cmd) message
      | Inr element \<Rightarrow> ackVerify now (hv_commandId cmd) (hv_id cmd) (Some element))"

definition executeClick :: "(string \<Rightarrow> Element option) \<Rightarrow> int \<Rightarrow> ClickCommand \<Rightarrow> CommandAck" where
  "executeClick page now cmd =
     (case findElement page (ck_id cmd) of
        Inl message \<Rightarrow> ackFail now (ck_commandId cmd) message
      | Inr element \<Rightarrow> ackVerify now (ck_commandId cmd) (ck_id cmd) (Some element))"

section \<open>The delta invariant, as the specification words it\<close>

text \<open>
  The candidate map as a partial function. \<open>addedMap\<close> is the map of the added records by
  id, a later record winning; \<open>mergeById\<close> merges one update entry into the candidate with
  its id. \<open>specDelta\<close> is the specification's formula: previous map united with the added
  records, minus the removed ids, then the updates merged. \<open>removeThenAdd\<close> takes the
  removed ids out first and adds afterwards.
\<close>

definition addedMap :: "ActionCandidate list \<Rightarrow> (string \<rightharpoonup> ActionCandidate)" where
  "addedMap cs = map_of (rev (map (\<lambda>c. (c_id c, c)) cs))"

definition mergeById :: "PartialCandidate \<Rightarrow> (string \<rightharpoonup> ActionCandidate) \<Rightarrow> (string \<rightharpoonup> ActionCandidate)" where
  "mergeById u m =
     (case u_id u of
        None \<Rightarrow> m
      | Some i \<Rightarrow> if i = [] then m
                  else (case m i of None \<Rightarrow> m | Some c \<Rightarrow> m(i \<mapsto> objectAssign c u)))"

definition specDelta :: "(string \<rightharpoonup> ActionCandidate) \<Rightarrow> ActionMapDelta \<Rightarrow> (string \<rightharpoonup> ActionCandidate)" where
  "specDelta prev d =
     fold mergeById (dl_updated d) ((prev ++ addedMap (dl_added d)) |` (- set (dl_removed d)))"

definition removeThenAdd :: "(string \<rightharpoonup> ActionCandidate) \<Rightarrow> ActionMapDelta \<Rightarrow> (string \<rightharpoonup> ActionCandidate)" where
  "removeThenAdd prev d =
     fold mergeById (dl_updated d) ((prev |` (- set (dl_removed d))) ++ addedMap (dl_added d))"

definition updatesFor :: "string \<Rightarrow> PartialCandidate list \<Rightarrow> PartialCandidate list" where
  "updatesFor k us = filter (\<lambda>u. u_id u = Some k \<and> k \<noteq> []) us"

section \<open>Example values\<close>

definition exCandidate :: "string \<Rightarrow> string \<Rightarrow> string \<Rightarrow> ActionCandidate" where
  "exCandidate i role name =
     \<lparr> c_id = i,
       c_rect = \<lparr> rect_x = 10, rect_y = 10, rect_w = 100, rect_h = 30 \<rparr>,
       c_rectN = \<lparr> rectN_x = 0, rectN_y = 0, rectN_w = 0, rectN_h = 0 \<rparr>,
       c_role = role, c_tag = ''button'', c_name = name, c_aria = [],
       c_placeholder = None, c_value = None, c_href = None,
       c_state = \<lparr> st_disabled = False, st_expanded = False, st_checked = False,
                   st_selected = False, st_focused = False \<rparr>,
       c_ctx = \<lparr> ctx_inModal = False, ctx_inNav = False, ctx_inForm = False, ctx_depth = 3,
                 ctx_formId = None \<rparr>,
       c_styleHint = \<lparr> sh_isPrimary = False, sh_isDanger = False, sh_cursorPointer = True,
                       sh_backgroundColor = None, sh_textColor = None \<rparr>,
       c_hit = \<lparr> hit_cx = 60, hit_cy = 25 \<rparr>,
       c_occluded = False, c_frameId = None \<rparr>"

definition exTab :: "string \<Rightarrow> (string \<times> ActionCandidate) list \<Rightarrow> TabState" where
  "exTab url cands =
     \<lparr> ts_tabId = 1, ts_url = url, ts_viewport = \<lparr> vp_width = 1024, vp_height = 768 \<rparr>,
       ts_userAgent = [], ts_connectedAt = 0, ts_lastUpdate = 0,
       ts_candidates = cands, ts_deltaHistory = [] \<rparr>"

definition exWorld :: "string \<Rightarrow> (string \<times> ActionCandidate) list \<Rightarrow> WorldState" where
  "exWorld url cands = \<lparr> ws_tabs = [(1, exTab url cands)], ws_pointer = None \<rparr>"

definition exDelta :: "ActionCandidate list \<Rightarrow> string list \<Rightarrow> PartialCandidate list \<Rightarrow> ActionMapDelta" where
  "exDelta added removed updated =
     \<lparr> dl_tabId = 1, dl_frameId = 0, dl_timestamp = 0,
       dl_added = added, dl_removed = removed, dl_updated = updated \<rparr>"


section \<open>Specification-side notions for the policy\<close>

text \<open>
  \<open>hostMatches\<close>: the host equals the entry or is a subdomain of it, case-insensitively.
  \<open>domainPasses\<close>: the domain step of \<open>checkCommand\<close> does not deny. \<open>patternBlocks\<close>: the
  action-name step denies. \<open>countSince\<close> and \<open>countAfter\<close> count the timestamps of a window.
  \<open>exHostname\<close> is a hostname function for the examples: on the urls used below it
  returns what \<open>new URL(url).hostname\<close> returns, and \<open>None\<close> for \<open>not a url\<close>, for which
  the constructor throws.
\<close>

definition hostMatches :: "string \<Rightarrow> string \<Rightarrow> bool" where
  "hostMatches host entry =
     (toLowerCase host = toLowerCase entry \<or> (\<exists>sub. toLowerCase host = sub @ ''.'' @ toLowerCase entry))"

definition exHostname :: "string \<Rightarrow> string option" where
  "exHostname url =
     (let rest = (if startsWith url ''https://'' then Some (drop 8 url)
                  else if startsWith url ''http://'' then Some (drop 7 url) else None)
      in case rest of
           None \<Rightarrow> None
         | Some r \<Rightarrow>
             let h = takeWhile (\<lambda>c. c \<noteq> CHR ''/'' \<and> c \<noteq> CHR ''?'' \<and> c \<noteq> CHR ''#'' \<and> c \<noteq> CHR '':'') r
             in if h = [] then None else Some (toLowerCase h))"

definition exPolicy :: "DomainMode \<Rightarrow> string list \<Rightarrow> PolicyConfig" where
  "exPolicy mode entries = defaultConfig\<lparr> pc_domainMode := mode, pc_domainList := entries \<rparr>"

definition domainPasses :: "(string \<Rightarrow> string option) \<Rightarrow> PolicyConfig \<Rightarrow> string option \<Rightarrow> bool" where
  "domainPasses hostname config tabUrl = (\<not> (truthy tabUrl \<and> \<not> isDomainAllowed hostname config (the tabUrl)))"

definition countSince :: "int \<Rightarrow> int list \<Rightarrow> nat" where
  "countSince a hist = length (filter (\<lambda>t. a \<le> t) hist)"

definition countAfter :: "int \<Rightarrow> int list \<Rightarrow> nat" where
  "countAfter a hist = length (filter (\<lambda>t. a < t) hist)"

definition exCommand :: "CommandType \<Rightarrow> Command" where
  "exCommand ty = \<lparr> cmd_type = ty, cmd_commandId = Some ''cmd_1'', cmd_tabId = 1, cmd_id = Some ''a_0'' \<rparr>"

definition exPolicyState :: "PolicyConfig \<Rightarrow> int list \<Rightarrow> PolicyState" where
  "exPolicyState config hist = \<lparr> ps_config = config, ps_commandHistory = hist \<rparr>"

definition patternBlocks :: "PolicyConfig \<Rightarrow> Command \<Rightarrow> string option \<Rightarrow> bool" where
  "patternBlocks config command elementName =
     ((cmd_type command = CmdClick \<or> cmd_type command = CmdType) \<and>
      (isPaymentAction config elementName \<or> isDeleteAction config elementName))"

section \<open>Specification-side notions for the diff, the search and the executor examples\<close>

text \<open>
  \<open>candidateChanged\<close> and \<open>changedFields\<close>: the diff rules, field by field.
  \<open>updateEntry\<close>: the update entry of one previous candidate. \<open>containsCI\<close>: a string
  contains another one case-insensitively; \<open>textMatches\<close> and \<open>filtersHold\<close>: the text rule
  and the filter rules of the search.
\<close>

definition changedFields :: "ActionCandidate \<Rightarrow> ActionCandidate \<Rightarrow> PartialCandidate" where
  "changedFields old new =
     \<lparr> u_id = None,
       u_rect = (if rectDiffers (c_rect old) (c_rect new) then Some (c_rect new) else None),
       u_rectN = (if rectDiffers (c_rect old) (c_rect new) then Some (c_rectN new) else None),
       u_role = None, u_tag = None,
       u_name = (if c_name old \<noteq> c_name new then Some (c_name new) else None),
       u_aria = None, u_placeholder = None,
       u_value = (if c_value old \<noteq> c_value new then Some (c_value new) else None),
       u_href = None,
       u_state = (if stateDiffers (c_state old) (c_state new) then Some (c_state new) else None),
       u_ctx = (if ctxDiffers (c_ctx old) (c_ctx new) then Some (c_ctx new) else None),
       u_styleHint = None,
       u_hit = (if rectDiffers (c_rect old) (c_rect new) then Some (c_hit new) else None),
       u_occluded = (if c_occluded old \<noteq> c_occluded new then Some (c_occluded new) else None),
       u_frameId = None \<rparr>"

definition candidateChanged :: "ActionCandidate \<Rightarrow> ActionCandidate \<Rightarrow> bool" where
  "candidateChanged old new =
     (\<bar>rect_x (c_rect old) - rect_x (c_rect new)\<bar> > 2 \<or> \<bar>rect_y (c_rect old) - rect_y (c_rect new)\<bar> > 2 \<or>
      \<bar>rect_w (c_rect old) - rect_w (c_rect new)\<bar> > 2 \<or> \<bar>rect_h (c_rect old) - rect_h (c_rect new)\<bar> > 2 \<or>
      st_disabled (c_state old) \<noteq> st_disabled (c_state new) \<or>
      st_expanded (c_state old) \<noteq> st_expanded (c_state new) \<or>
      st_checked (c_state old) \<noteq> st_checked (c_state new) \<or>
      st_selected (c_state old) \<noteq> st_selected (c_state new) \<or>
      st_focused (c_state old) \<noteq> st_focused (c_state new) \<or>
      c_name old \<noteq> c_name new \<or> c_value old \<noteq> c_value new \<or> c_occluded old \<noteq> c_occluded new \<or>
      ctx_inModal (c_ctx old) \<noteq> ctx_inModal (c_ctx new) \<or> ctx_inNav (c_ctx old) \<noteq> ctx_inNav (c_ctx new))"

definition updateEntry :: "(string \<times> ActionCandidate) list \<Rightarrow> string \<times> ActionCandidate \<Rightarrow> PartialCandidate option" where
  "updateEntry currentMap entry =
     (case map_of currentMap (fst entry) of
        None \<Rightarrow> None
      | Some new \<Rightarrow>
          if candidateChanged (snd entry) new
          then Some ((changedFields (snd entry) new)\<lparr> u_id := Some (fst entry) \<rparr>)
          else None)"

definition containsCI :: "string \<Rightarrow> string \<Rightarrow> bool" where
  "containsCI s q = (\<exists>pre post. toLowerCase s = pre @ toLowerCase q @ post)"

definition textMatches :: "string \<Rightarrow> ActionCandidate \<Rightarrow> bool" where
  "textMatches search c =
     (search = [] \<or> containsCI (c_name c) search \<or> containsCI (c_aria c) search \<or> containsCI (c_id c) search)"

definition filtersHold :: "Filters option \<Rightarrow> ActionCandidate \<Rightarrow> bool" where
  "filtersHold filters c =
     (case filters of
        None \<Rightarrow> True
      | Some f \<Rightarrow>
          (\<forall>r. f_role f = Some r \<and> r \<noteq> [] \<longrightarrow> c_role c = r) \<and>
          (\<forall>t. f_tag f = Some t \<and> t \<noteq> [] \<longrightarrow> c_tag c = t) \<and>
          (\<forall>v. f_visible f = Some v \<longrightarrow> c_occluded c = (\<not> v)) \<and>
          (\<forall>e. f_enabled f = Some e \<longrightarrow> st_disabled (c_state c) = (\<not> e)))"

definition exFilters :: "string option \<Rightarrow> Filters" where
  "exFilters role = \<lparr> f_role = role, f_tag = None, f_visible = None, f_enabled = None \<rparr>"

definition exCandidates :: "(string \<times> ActionCandidate) list" where
  "exCandidates =
     [(''a_0'', exCandidate ''a_0'' ''button'' ''Sign in''),
      (''a_1'', exCandidate ''a_1'' ''link'' ''Sign in help''),
      (''a_2'', exCandidate ''a_2'' ''button'' ''Cancel'')]"

definition exMoved :: "string \<Rightarrow> int \<Rightarrow> int \<Rightarrow> ActionCandidate" where
  "exMoved name x y =
     (exCandidate ''a_0'' ''button'' name)\<lparr> c_rect := \<lparr> rect_x = x, rect_y = y, rect_w = 100, rect_h = 30 \<rparr> \<rparr>"

definition exPage :: "string \<Rightarrow> Element option" where
  "exPage i =
     (if i = ''a_0''
      then Some \<lparr> el_left = 210.4, el_top = 95.5, el_width = 100, el_height = 30, el_topEl = TopSame \<rparr>
      else None)"

definition exClick :: "string \<Rightarrow> ClickCommand" where
  "exClick i = \<lparr> ck_commandId = ''cmd_1'', ck_tabId = 1, ck_id = i, ck_button = None,
                 ck_modifiers = None, ck_clickCount = None \<rparr>"

definition exHover :: "string \<Rightarrow> HoverCommand" where
  "exHover i = \<lparr> hv_commandId = ''cmd_2'', hv_tabId = 1, hv_id = i, hv_duration = None \<rparr>"

section \<open>Specification-side notions for the command pipeline\<close>

text \<open>
  \<open>resolvedHandles\<close>: the promises whose \<open>resolve\<close> has been called; \<open>armedTimers\<close>: the
  timers that are armed; \<open>issuedFor g p c\<close>: promise \<open>p\<close> was created for a command with id
  \<open>c\<close>. \<open>pipelineInv\<close> is the invariant of the pending table, the timers and the
  resolutions.
\<close>

definition resolvedHandles :: "Gateway \<Rightarrow> nat set" where
  "resolvedHandles g = fst ` set (gw_resolved g)"

definition armedTimers :: "Gateway \<Rightarrow> nat set" where
  "armedTimers g = dom (map_of (gw_timers g))"

definition issuedFor :: "Gateway \<Rightarrow> nat \<Rightarrow> string \<Rightarrow> bool" where
  "issuedFor g p commandId = (\<exists>cmd. (p, cmd) \<in> set (gw_issued g) \<and> cmd_commandId cmd = Some commandId)"

definition pipelineInv :: "Gateway \<Rightarrow> bool" where
  "pipelineInv g =
     (distinct (map fst (gw_resolved g)) \<and>
      map fst (gw_issued g) = [0..<gw_nextHandle g] \<and>
      (\<forall>p. (p \<in> resolvedHandles g \<or> p \<in> armedTimers g) = (p < gw_nextHandle g)) \<and>
      resolvedHandles g \<inter> armedTimers g = {} \<and>
      (\<forall>t tm. map_of (gw_timers g) t = Some tm \<longrightarrow>
          tm_resolve tm = t \<and> issuedFor g t (tm_commandId tm)) \<and>
      (\<forall>k pe. map_of (gw_pendingCommands g) k = Some pe \<longrightarrow>
          pend_resolve pe = pend_timeout pe \<and>
          (\<exists>tm. map_of (gw_timers g) (pend_timeout pe) = Some tm \<and> tm_commandId tm = k)) \<and>
      (\<forall>p ack. (p, ack) \<in> set (gw_resolved g) \<longrightarrow> issuedFor g p (ack_commandId ack)))"



definition exAck :: "string \<Rightarrow> CommandAck" where
  "exAck commandId =
     \<lparr> ack_commandId = commandId, ack_status = AckOk, ack_timestamp = 1200, ack_tabId = None \<rparr>"

definition exGateway :: "PolicyConfig \<Rightarrow> Gateway" where
  "exGateway config =
     startGateway (exWorld ''https://a/'' exCandidates) (exPolicyState config [])
       [(0, True)] [(5, \<lparr> rs_open = True, rs_subscribedTabId = Some 1 \<rparr>)]"

definition exEvents :: "Event list" where
  "exEvents =
     [EvAct (exCommand CmdHover) 1000 ''cmd_g1'',
      EvAgentAck (exAck ''cmd_1''),
      EvAgentAck (exAck ''cmd_1''),
      EvAct ((exCommand CmdClick)\<lparr> cmd_commandId := None \<rparr>) 5000 ''cmd_g2'',
      EvTimeout 1 20000,
      EvTimeout 1 40000]"

section \<open>Properties of the world state store\<close>


lemma map_of_applyRemovals: "map_of (applyRemovals rs m) = map_of m |` (- set rs)"
proof (induction rs arbitrary: m)
  case Nil
  then show ?case by simp
next
  case (Cons r rs)
  have "map_of (AList.delete r m) |` (- set rs) = map_of m |` (- set (r # rs))"
    by (rule ext) (simp add: delete_conv' restrict_map_def)
  with Cons show ?case by simp
qed

lemma addedMap_Cons: "m ++ addedMap (c # cs) = (m(c_id c \<mapsto> c)) ++ addedMap cs"
  by (rule ext) (simp add: addedMap_def map_add_def split: option.splits)

lemma map_of_applyAdditions: "map_of (applyAdditions cs m) = map_of m ++ addedMap cs"
proof (induction cs arbitrary: m)
  case Nil
  then show ?case by (simp add: addedMap_def)
next
  case (Cons c cs)
  have "map_of (applyAdditions (c # cs) m) = map_of (AList.update (c_id c) c m) ++ addedMap cs"
    using Cons by simp
  also have "\<dots> = (map_of m)(c_id c \<mapsto> c) ++ addedMap cs"
    by (simp only: update_conv')
  also have "\<dots> = map_of m ++ addedMap (c # cs)"
    by (simp only: addedMap_Cons)
  finally show ?case .
qed

lemma map_of_applyUpdate: "map_of (applyUpdate u m) = mergeById u (map_of m)"
  by (simp add: applyUpdate_def mergeById_def update_conv' split: option.splits)

lemma map_of_applyUpdates: "map_of (applyUpdates us m) = fold mergeById us (map_of m)"
  by (induction us arbitrary: m) (simp_all add: map_of_applyUpdate)

lemma disjoint_order:
  assumes "c_id ` set cs \<inter> set rs = {}"
  shows "(m |` (- set rs)) ++ addedMap cs = (m ++ addedMap cs) |` (- set rs)"
proof (rule ext)
  fix k
  have dom: "dom (addedMap cs) = c_id ` set cs"
    by (force simp: addedMap_def dom_map_of_conv_image_fst)
  show "((m |` (- set rs)) ++ addedMap cs) k = ((m ++ addedMap cs) |` (- set rs)) k"
  proof (cases "k \<in> set rs")
    case True
    with assms dom have "addedMap cs k = None" by blast
    with True show ?thesis by (simp add: map_add_def restrict_map_def)
  next
    case False
    then show ?thesis by (simp add: map_add_def restrict_map_def)
  qed
qed

lemma handleDelta_map:
  assumes "getTab s (dl_tabId d) = Some t"
  shows "\<exists>t'. handleDelta now d s = (Some t', s\<lparr> ws_tabs := AList.update (dl_tabId d) t' (ws_tabs s) \<rparr>)
            \<and> getTab (snd (handleDelta now d s)) (dl_tabId d) = Some t'
            \<and> map_of (ts_candidates t') = removeThenAdd (map_of (ts_candidates t)) d"
  using assms
  by (simp add: handleDelta_def getTab_def Let_def update_conv' removeThenAdd_def
      map_of_applyUpdates map_of_applyAdditions map_of_applyRemovals)





lemma orKeep_absorb: "orKeep p a = orKeep p b \<Longrightarrow> orKeep p (orKeep q a) = orKeep p (orKeep q b)"
  by (cases p; cases q; simp add: orKeep_def)

lemma orKeep_idem: "orKeep p (orKeep p a) = orKeep p a"
  by (cases p; simp add: orKeep_def)

lemma objectAssign_idem: "objectAssign (objectAssign c u) u = objectAssign c u"
  by (simp add: objectAssign_def orKeep_idem)

lemma objectAssign_sel:
  "c_id (objectAssign c u) = orKeep (u_id u) (c_id c)"
  "c_rect (objectAssign c u) = orKeep (u_rect u) (c_rect c)"
  "c_rectN (objectAssign c u) = orKeep (u_rectN u) (c_rectN c)"
  "c_role (objectAssign c u) = orKeep (u_role u) (c_role c)"
  "c_tag (objectAssign c u) = orKeep (u_tag u) (c_tag c)"
  "c_name (objectAssign c u) = orKeep (u_name u) (c_name c)"
  "c_aria (objectAssign c u) = orKeep (u_aria u) (c_aria c)"
  "c_placeholder (objectAssign c u) = orKeep (u_placeholder u) (c_placeholder c)"
  "c_value (objectAssign c u) = orKeep (u_value u) (c_value c)"
  "c_href (objectAssign c u) = orKeep (u_href u) (c_href c)"
  "c_state (objectAssign c u) = orKeep (u_state u) (c_state c)"
  "c_ctx (objectAssign c u) = orKeep (u_ctx u) (c_ctx c)"
  "c_styleHint (objectAssign c u) = orKeep (u_styleHint u) (c_styleHint c)"
  "c_hit (objectAssign c u) = orKeep (u_hit u) (c_hit c)"
  "c_occluded (objectAssign c u) = orKeep (u_occluded u) (c_occluded c)"
  "c_frameId (objectAssign c u) = orKeep (u_frameId u) (c_frameId c)"
  by (simp_all add: objectAssign_def)

lemma objectAssign_eq_iff:
  "objectAssign a u = objectAssign b u \<longleftrightarrow>
     orKeep (u_id u) (c_id a) = orKeep (u_id u) (c_id b) \<and>
     orKeep (u_rect u) (c_rect a) = orKeep (u_rect u) (c_rect b) \<and>
     orKeep (u_rectN u) (c_rectN a) = orKeep (u_rectN u) (c_rectN b) \<and>
     orKeep (u_role u) (c_role a) = orKeep (u_role u) (c_role b) \<and>
     orKeep (u_tag u) (c_tag a) = orKeep (u_tag u) (c_tag b) \<and>
     orKeep (u_name u) (c_name a) = orKeep (u_name u) (c_name b) \<and>
     orKeep (u_aria u) (c_aria a) = orKeep (u_aria u) (c_aria b) \<and>
     orKeep (u_placeholder u) (c_placeholder a) = orKeep (u_placeholder u) (c_placeholder b) \<and>
     orKeep (u_value u) (c_value a) = orKeep (u_value u) (c_value b) \<and>
     orKeep (u_href u) (c_href a) = orKeep (u_href u) (c_href b) \<and>
     orKeep (u_state u) (c_state a) = orKeep (u_state u) (c_state b) \<and>
     orKeep (u_ctx u) (c_ctx a) = orKeep (u_ctx u) (c_ctx b) \<and>
     orKeep (u_styleHint u) (c_styleHint a) = orKeep (u_styleHint u) (c_styleHint b) \<and>
     orKeep (u_hit u) (c_hit a) = orKeep (u_hit u) (c_hit b) \<and>
     orKeep (u_occluded u) (c_occluded a) = orKeep (u_occluded u) (c_occluded b) \<and>
     orKeep (u_frameId u) (c_frameId a) = orKeep (u_frameId u) (c_frameId b)"
  by (simp add: objectAssign_def)

lemma objectAssign_cong:
  assumes "objectAssign a u = objectAssign b u"
  shows "objectAssign (objectAssign a v) u = objectAssign (objectAssign b v) u"
proof -
  note h = assms [unfolded objectAssign_eq_iff]
  show ?thesis
    unfolding objectAssign_eq_iff [of "objectAssign a v"] objectAssign_sel
    by (intro conjI orKeep_absorb) (use h in blast)+
qed

lemma foldl_objectAssign_cong:
  "objectAssign a u = objectAssign b u \<Longrightarrow>
   objectAssign (foldl objectAssign a vs) u = objectAssign (foldl objectAssign b vs) u"
proof (induction vs arbitrary: a b)
  case Nil
  then show ?case by simp
next
  case (Cons v vs)
  from Cons.prems have "objectAssign (objectAssign a v) u = objectAssign (objectAssign b v) u"
    by (rule objectAssign_cong)
  then have "objectAssign (foldl objectAssign (objectAssign a v) vs) u
           = objectAssign (foldl objectAssign (objectAssign b v) vs) u"
    by (rule Cons.IH)
  then show ?case by (simp only: foldl_Cons)
qed

lemma foldl_objectAssign_idem:
  "foldl objectAssign (foldl objectAssign c us) us = foldl objectAssign c us"
proof (induction us arbitrary: c rule: rev_induct)
  case Nil
  then show ?case by simp
next
  case (snoc u us)
  let ?x = "foldl objectAssign c us"
  have "objectAssign (foldl objectAssign (objectAssign ?x u) us) u
        = objectAssign (foldl objectAssign ?x us) u"
    by (rule foldl_objectAssign_cong) (rule objectAssign_idem)
  also have "\<dots> = objectAssign ?x u"
    by (simp only: snoc.IH)
  finally show ?case by (simp only: foldl_append foldl_Cons foldl_Nil)
qed

lemma mergeById_key:
  "mergeById u m k = (if u_id u = Some k \<and> k \<noteq> [] then map_option (\<lambda>c. objectAssign c u) (m k) else m k)"
  by (auto simp: mergeById_def split: option.splits)

lemma fold_mergeById_key:
  "fold mergeById us m k = map_option (\<lambda>c. foldl objectAssign c (updatesFor k us)) (m k)"
proof (induction us arbitrary: m)
  case Nil
  then show ?case by (simp add: updatesFor_def option.map_ident)
next
  case (Cons u us)
  have "fold mergeById (u # us) m k
        = map_option (\<lambda>c. foldl objectAssign c (updatesFor k us)) (mergeById u m k)"
    using Cons.IH [of "mergeById u m"] by simp
  also have "\<dots> = map_option (\<lambda>c. foldl objectAssign c (updatesFor k (u # us))) (m k)"
    by (cases "m k") (simp_all add: mergeById_key updatesFor_def)
  finally show ?case .
qed

lemma removeThenAdd_key:
  "removeThenAdd m d k =
      map_option (\<lambda>c. foldl objectAssign c (updatesFor k (dl_updated d)))
        (case addedMap (dl_added d) k of Some a \<Rightarrow> Some a
         | None \<Rightarrow> if k \<in> set (dl_removed d) then None else m k)"
  by (simp add: removeThenAdd_def fold_mergeById_key map_add_def restrict_map_def
        split: option.splits)

lemma removeThenAdd_idem:
  "removeThenAdd (removeThenAdd m d) d = removeThenAdd m d"
proof (rule ext)
  fix k
  show "removeThenAdd (removeThenAdd m d) d k = removeThenAdd m d k"
  proof (cases "addedMap (dl_added d) k")
    case (Some a)
    then show ?thesis by (simp add: removeThenAdd_key)
  next
    case None
    show ?thesis
    proof (cases "k \<in> set (dl_removed d)")
      case True
      with None show ?thesis by (simp add: removeThenAdd_key)
    next
      case False
      with None show ?thesis
        by (cases "m k") (simp_all add: removeThenAdd_key foldl_objectAssign_idem)
    qed
  qed
qed



lemma handleDelta_spec_order:
  assumes "getTab s (dl_tabId d) = Some t" and "c_id ` set (dl_added d) \<inter> set (dl_removed d) = {}"
  shows "removeThenAdd (map_of (ts_candidates t)) d = specDelta (map_of (ts_candidates t)) d"
  using assms(2) by (simp add: removeThenAdd_def specDelta_def disjoint_order)

text \<open>
  Claim C1, as the code has it. For a delta whose tab has a TabState, \<open>handleDelta\<close> returns
  the updated tab state, stores it under the tab id, and leaves the candidate map equal to
  the previous map with the removed ids taken out first and the added records put in
  afterwards (a later record for an id winning), then every update entry with a non-empty
  id merged into the candidate with that id. Whenever no id is both added and removed this
  is the map \<open>(prev \<union> added) \ removed\<close> with the updates merged.
\<close>

theorem handleDelta_candidate_map:
  "getTab s (dl_tabId d) = Some t \<Longrightarrow>
   (\<exists>t'. fst (handleDelta now d s) = Some t'
        \<and> getTab (snd (handleDelta now d s)) (dl_tabId d) = Some t'
        \<and> map_of (ts_candidates t') = removeThenAdd (map_of (ts_candidates t)) d
        \<and> (c_id ` set (dl_added d) \<inter> set (dl_removed d) = {} \<longrightarrow>
             map_of (ts_candidates t') = specDelta (map_of (ts_candidates t)) d))"
proof -
  assume tab: "getTab s (dl_tabId d) = Some t"
  from handleDelta_map [OF tab, of now] obtain t' where
    r: "handleDelta now d s = (Some t', s\<lparr> ws_tabs := AList.update (dl_tabId d) t' (ws_tabs s) \<rparr>)"
    and g: "getTab (snd (handleDelta now d s)) (dl_tabId d) = Some t'"
    and m: "map_of (ts_candidates t') = removeThenAdd (map_of (ts_candidates t)) d"
    by blast
  have "c_id ` set (dl_added d) \<inter> set (dl_removed d) = {} \<longrightarrow>
        map_of (ts_candidates t') = specDelta (map_of (ts_candidates t)) d"
    using m handleDelta_spec_order [OF tab] by simp
  with r g m show ?thesis by simp
qed

theorem handleDelta_candidate_map_witness:
  "getTab (exWorld ''https://a/'' [(''a_0'', exCandidate ''a_0'' ''button'' ''Sign in'')]) 1
     = Some (exTab ''https://a/'' [(''a_0'', exCandidate ''a_0'' ''button'' ''Sign in'')])
   \<and> (\<exists>t'. fst (handleDelta 7 (exDelta [exCandidate ''a_1'' ''link'' ''Help''] [''a_0''] [])
                  (exWorld ''https://a/'' [(''a_0'', exCandidate ''a_0'' ''button'' ''Sign in'')])) = Some t'
         \<and> map_of (ts_candidates t') =
             specDelta (map_of [(''a_0'', exCandidate ''a_0'' ''button'' ''Sign in'')])
               (exDelta [exCandidate ''a_1'' ''link'' ''Help''] [''a_0''] []))"
proof -
  have tab: "getTab (exWorld ''https://a/'' [(''a_0'', exCandidate ''a_0'' ''button'' ''Sign in'')])
               (dl_tabId (exDelta [exCandidate ''a_1'' ''link'' ''Help''] [''a_0''] []))
             = Some (exTab ''https://a/'' [(''a_0'', exCandidate ''a_0'' ''button'' ''Sign in'')])"
    by (simp add: getTab_def exWorld_def exDelta_def)
  have disj: "c_id ` set (dl_added (exDelta [exCandidate ''a_1'' ''link'' ''Help''] [''a_0''] []))
               \<inter> set (dl_removed (exDelta [exCandidate ''a_1'' ''link'' ''Help''] [''a_0''] [])) = {}"
    by (simp add: exDelta_def exCandidate_def)
  from handleDelta_candidate_map [OF tab, of 7] disj tab show ?thesis
    by (auto simp: exTab_def exDelta_def)
qed

text \<open>
  Claim C1 as stated fails for a delta that adds and removes the same id: the tab has no
  candidates, the delta removes \<open>a_0\<close> and adds a record with id \<open>a_0\<close>. The code keeps the
  record, while \<open>(prev \<union> added) \ removed\<close> has nothing under \<open>a_0\<close>.
\<close>

theorem handleDelta_overlap_counterexample:
  "getTab (exWorld ''https://a/'' []) 1 = Some (exTab ''https://a/'' [])
   \<and> getCandidates
       (snd (handleDelta 7 (exDelta [exCandidate ''a_0'' ''button'' ''Sign in''] [''a_0''] [])
              (exWorld ''https://a/'' []))) 1
     = [exCandidate ''a_0'' ''button'' ''Sign in'']
   \<and> specDelta (map_of (ts_candidates (exTab ''https://a/'' [])))
        (exDelta [exCandidate ''a_0'' ''button'' ''Sign in''] [''a_0''] []) ''a_0'' = None"
  by (simp add: handleDelta_def getCandidates_def getTab_def exDelta_def exWorld_def exTab_def
      specDelta_def addedMap_def exCandidate_def Let_def)

text \<open>
  Claim C3. For a tab with a TabState, applying a delta and then the same delta again
  leaves the candidate map, as a map from ids to records, as it was after the first
  application.
\<close>

theorem handleDelta_replay:
  "getTab s (dl_tabId d) = Some t \<Longrightarrow>
   (\<exists>t1 t2. fst (handleDelta now d s) = Some t1
          \<and> fst (handleDelta now' d (snd (handleDelta now d s))) = Some t2
          \<and> map_of (ts_candidates t2) = map_of (ts_candidates t1))"
proof -
  assume tab: "getTab s (dl_tabId d) = Some t"
  from handleDelta_map [OF tab, of now] obtain t1 where
    f1: "fst (handleDelta now d s) = Some t1"
    and g1: "getTab (snd (handleDelta now d s)) (dl_tabId d) = Some t1"
    and m1: "map_of (ts_candidates t1) = removeThenAdd (map_of (ts_candidates t)) d"
    by force
  from handleDelta_map [OF g1, of now'] obtain t2 where
    f2: "fst (handleDelta now' d (snd (handleDelta now d s))) = Some t2"
    and m2: "map_of (ts_candidates t2) = removeThenAdd (map_of (ts_candidates t1)) d"
    by force
  from m1 m2 have "map_of (ts_candidates t2) = map_of (ts_candidates t1)"
    by (simp add: removeThenAdd_idem)
  with f1 f2 show ?thesis by blast
qed

theorem handleDelta_replay_witness:
  "getTab (exWorld ''https://a/'' [(''a_0'', exCandidate ''a_0'' ''button'' ''Sign in'')]) 1
     = Some (exTab ''https://a/'' [(''a_0'', exCandidate ''a_0'' ''button'' ''Sign in'')])
   \<and> (\<exists>t1 t2.
         fst (handleDelta 7 (exDelta [exCandidate ''a_0'' ''link'' ''Help''] [''a_0'']
                               [noChanges\<lparr> u_id := Some ''a_0'', u_name := Some ''Home'' \<rparr>])
                (exWorld ''https://a/'' [(''a_0'', exCandidate ''a_0'' ''button'' ''Sign in'')])) = Some t1
       \<and> fst (handleDelta 9 (exDelta [exCandidate ''a_0'' ''link'' ''Help''] [''a_0'']
                               [noChanges\<lparr> u_id := Some ''a_0'', u_name := Some ''Home'' \<rparr>])
                (snd (handleDelta 7 (exDelta [exCandidate ''a_0'' ''link'' ''Help''] [''a_0'']
                                       [noChanges\<lparr> u_id := Some ''a_0'', u_name := Some ''Home'' \<rparr>])
                        (exWorld ''https://a/'' [(''a_0'', exCandidate ''a_0'' ''button'' ''Sign in'')])))) = Some t2
       \<and> map_of (ts_candidates t2) = map_of (ts_candidates t1))"
proof -
  let ?d = "exDelta [exCandidate ''a_0'' ''link'' ''Help''] [''a_0'']
              [noChanges\<lparr> u_id := Some ''a_0'', u_name := Some ''Home'' \<rparr>]"
  let ?w = "exWorld ''https://a/'' [(''a_0'', exCandidate ''a_0'' ''button'' ''Sign in'')]"
  have tab: "getTab ?w (dl_tabId ?d)
             = Some (exTab ''https://a/'' [(''a_0'', exCandidate ''a_0'' ''button'' ''Sign in'')])"
    by (simp add: getTab_def exWorld_def exDelta_def)
  have tab1: "getTab ?w 1
             = Some (exTab ''https://a/'' [(''a_0'', exCandidate ''a_0'' ''button'' ''Sign in'')])"
    by (simp add: getTab_def exWorld_def)
  from handleDelta_replay [OF tab, of 7 9] tab1 show ?thesis by blast
qed

section \<open>Properties of the policy\<close>

lemma startsWith_iff: "startsWith s q \<longleftrightarrow> (\<exists>post. s = q @ post)"
  by (induction s q rule: startsWith.induct) auto

lemma endsWith_iff: "endsWith s q \<longleftrightarrow> (\<exists>pre. s = pre @ q)"
proof
  assume "endsWith s q"
  then obtain post where "rev s = rev q @ post"
    by (auto simp: endsWith_def startsWith_iff)
  then have "s = rev post @ q" by (metis rev_append rev_rev_ident)
  then show "\<exists>pre. s = pre @ q" by blast
next
  assume "\<exists>pre. s = pre @ q"
  then show "endsWith s q" by (auto simp: endsWith_def startsWith_iff)
qed

lemma includesStr_iff: "includesStr s q \<longleftrightarrow> (\<exists>pre post. s = pre @ q @ post)"
proof (induction s)
  case Nil
  then show ?case by auto
next
  case (Cons c cs)
  show ?case
  proof
    assume "includesStr (c # cs) q"
    then consider "startsWith (c # cs) q" | "includesStr cs q" by auto
    then show "\<exists>pre post. c # cs = pre @ q @ post"
    proof cases
      case 1
      then obtain post where "c # cs = [] @ q @ post" by (auto simp: startsWith_iff)
      then show ?thesis by blast
    next
      case 2
      with Cons obtain pre post where "cs = pre @ q @ post" by blast
      then have "c # cs = (c # pre) @ q @ post" by simp
      then show ?thesis by blast
    qed
  next
    assume "\<exists>pre post. c # cs = pre @ q @ post"
    then obtain pre post where e: "c # cs = pre @ q @ post" by blast
    show "includesStr (c # cs) q"
    proof (cases pre)
      case Nil
      with e have "startsWith (c # cs) q" by (auto simp: startsWith_iff)
      then show ?thesis by simp
    next
      case (Cons a pre')
      with e have "cs = pre' @ q @ post" by simp
      with Cons.IH have "includesStr cs q" by blast
      then show ?thesis by simp
    qed
  qed
qed

lemma list_ex_hostMatches:
  "list_ex (\<lambda>d. toLowerCase h = toLowerCase d \<or> endsWith (toLowerCase h) (CHR ''.'' # toLowerCase d)) ds
   \<longleftrightarrow> (\<exists>d\<in>set ds. hostMatches h d)"
  by (simp add: list_ex_iff hostMatches_def endsWith_iff)

text \<open>
  Claim C5, as the code has it. In mode \<open>all\<close> the domain check passes for every url,
  parsable or not. In allowlist mode a url whose host is \<open>h\<close> passes exactly when \<open>h\<close>
  equals or is a subdomain of some entry of the list, case-insensitively; in blocklist mode
  exactly when it does not. In allowlist and blocklist mode a url that cannot be parsed
  is denied. With the allowlist \<open>example.com\<close>, \<open>https://sub.example.com/x\<close> passes and
  \<open>https://other.com\<close> is denied.
\<close>

theorem isDomainAllowed_modes:
  "(pc_domainMode config = ModeAll \<longrightarrow> isDomainAllowed hostname config url) \<and>
   (pc_domainMode config = ModeAllowlist \<and> hostname url = Some h \<longrightarrow>
      isDomainAllowed hostname config url = (\<exists>d\<in>set (pc_domainList config). hostMatches h d)) \<and>
   (pc_domainMode config = ModeBlocklist \<and> hostname url = Some h \<longrightarrow>
      isDomainAllowed hostname config url = (\<not> (\<exists>d\<in>set (pc_domainList config). hostMatches h d))) \<and>
   (pc_domainMode config \<noteq> ModeAll \<and> hostname url = None \<longrightarrow> \<not> isDomainAllowed hostname config url) \<and>
   (pc_domainMode config = ModeAllowlist \<and> pc_domainList config = [''example.com'']
      \<and> hostname ''https://sub.example.com/x'' = Some ''sub.example.com''
      \<and> hostname ''https://other.com'' = Some ''other.com'' \<longrightarrow>
      isDomainAllowed hostname config ''https://sub.example.com/x''
      \<and> \<not> isDomainAllowed hostname config ''https://other.com'')"
proof (intro conjI impI)
  assume "pc_domainMode config = ModeAll"
  then show "isDomainAllowed hostname config url" by (simp add: isDomainAllowed_def)
next
  assume "pc_domainMode config = ModeAllowlist \<and> hostname url = Some h"
  then show "isDomainAllowed hostname config url = (\<exists>d\<in>set (pc_domainList config). hostMatches h d)"
    by (simp add: isDomainAllowed_def Let_def list_ex_hostMatches)
next
  assume "pc_domainMode config = ModeBlocklist \<and> hostname url = Some h"
  then show "isDomainAllowed hostname config url = (\<not> (\<exists>d\<in>set (pc_domainList config). hostMatches h d))"
    by (simp add: isDomainAllowed_def Let_def list_ex_hostMatches)
next
  assume "pc_domainMode config \<noteq> ModeAll \<and> hostname url = None"
  then show "\<not> isDomainAllowed hostname config url" by (simp add: isDomainAllowed_def)
next
  assume a: "pc_domainMode config = ModeAllowlist \<and> pc_domainList config = [''example.com'']
      \<and> hostname ''https://sub.example.com/x'' = Some ''sub.example.com''
      \<and> hostname ''https://other.com'' = Some ''other.com''"
  then show "isDomainAllowed hostname config ''https://sub.example.com/x''"
    by (simp add: isDomainAllowed_def Let_def endsWith_def toLowerCase_def lowerChar_def upperLetters_def lowerLetters_def)
next
  assume a: "pc_domainMode config = ModeAllowlist \<and> pc_domainList config = [''example.com'']
      \<and> hostname ''https://sub.example.com/x'' = Some ''sub.example.com''
      \<and> hostname ''https://other.com'' = Some ''other.com''"
  then show "\<not> isDomainAllowed hostname config ''https://other.com''"
    by (simp add: isDomainAllowed_def Let_def endsWith_def toLowerCase_def lowerChar_def upperLetters_def lowerLetters_def)
qed

theorem isDomainAllowed_modes_witness:
  "isDomainAllowed exHostname (exPolicy ModeAll []) ''not a url''
   \<and> exHostname ''https://sub.example.com/x'' = Some ''sub.example.com''
   \<and> isDomainAllowed exHostname (exPolicy ModeAllowlist [''example.com'']) ''https://sub.example.com/x''
   \<and> exHostname ''https://other.com'' = Some ''other.com''
   \<and> \<not> isDomainAllowed exHostname (exPolicy ModeAllowlist [''example.com'']) ''https://other.com''
   \<and> exHostname ''https://Shop.Example.COM:8443/cart?x=1'' = Some ''shop.example.com''
   \<and> hostMatches ''shop.example.com'' ''Example.com''
   \<and> \<not> isDomainAllowed exHostname (exPolicy ModeBlocklist [''Example.com'']) ''https://Shop.Example.COM:8443/cart?x=1''
   \<and> exHostname ''not a url'' = None
   \<and> \<not> isDomainAllowed exHostname (exPolicy ModeBlocklist [''example.com'']) ''not a url''"
proof -
  have e: "exHostname ''https://sub.example.com/x'' = Some ''sub.example.com''"
    "exHostname ''https://other.com'' = Some ''other.com''"
    "exHostname ''https://Shop.Example.COM:8443/cart?x=1'' = Some ''shop.example.com''"
    "exHostname ''not a url'' = None"
    by (simp_all add: exHostname_def toLowerCase_def lowerChar_def upperLetters_def lowerLetters_def)
  have m: "hostMatches ''shop.example.com'' ''Example.com''"
    unfolding hostMatches_def
    by (rule disjI2, rule exI [of _ "''shop''"]) (simp add: toLowerCase_def lowerChar_def upperLetters_def lowerLetters_def)
  have w1: "isDomainAllowed exHostname (exPolicy ModeAll []) ''not a url''"
    using isDomainAllowed_modes [where config = "exPolicy ModeAll []" and hostname = exHostname
        and url = "''not a url''"]
    by (simp add: exPolicy_def)
  have w2: "isDomainAllowed exHostname (exPolicy ModeAllowlist [''example.com'']) ''https://sub.example.com/x''"
       "\<not> isDomainAllowed exHostname (exPolicy ModeAllowlist [''example.com'']) ''https://other.com''"
    using isDomainAllowed_modes [where config = "exPolicy ModeAllowlist [''example.com'']"
        and hostname = exHostname] e
    by (simp_all add: exPolicy_def)
  have w3: "\<not> isDomainAllowed exHostname (exPolicy ModeBlocklist [''Example.com'']) ''https://Shop.Example.COM:8443/cart?x=1''"
    using isDomainAllowed_modes [where config = "exPolicy ModeBlocklist [''Example.com'']"
        and hostname = exHostname and url = "''https://Shop.Example.COM:8443/cart?x=1''"
        and h = "''shop.example.com''"] e m
    by (simp add: exPolicy_def)
  have w4: "\<not> isDomainAllowed exHostname (exPolicy ModeBlocklist [''example.com'']) ''not a url''"
    using isDomainAllowed_modes [where config = "exPolicy ModeBlocklist [''example.com'']"
        and hostname = exHostname and url = "''not a url''"] e
    by (simp add: exPolicy_def)
  from e m w1 w2 w3 w4 show ?thesis by simp
qed

text \<open>
  Claim C5 as stated fails for a url that cannot be parsed under mode \<open>all\<close>, the default
  configuration: the check returns before it parses the url, and the url is allowed.
\<close>

theorem isDomainAllowed_all_counterexample:
  "exHostname ''not a url'' = None \<and> pc_domainMode defaultConfig = ModeAll
   \<and> isDomainAllowed exHostname defaultConfig ''not a url''"
  by (simp add: exHostname_def isDomainAllowed_def defaultConfig_def)

lemma checkRateLimits_config: "ps_config (snd (checkRateLimits now ps)) = ps_config ps"
  by (simp add: checkRateLimits_def Let_def)

lemma checkRateLimits_history:
  "ps_commandHistory (snd (checkRateLimits now ps)) = dropWhile (\<lambda>t. t < now - 60000) (ps_commandHistory ps)"
  by (simp add: checkRateLimits_def Let_def)

lemma regexTest_append: "regexTest p s \<Longrightarrow> regexTest p (pre @ s)"
  by (induction pre) simp_all

lemma regexTest_delete: "regexTest (lit ''delete'') (pre @ ''Delete account'' @ post)"
proof -
  have "matchHere (lit ''delete'') (''Delete account'' @ post)"
    by (simp add: lit_def lowerChar_def upperLetters_def lowerLetters_def)
  then have "regexTest (lit ''delete'') (''Delete account'' @ post)" by simp
  then show ?thesis by (rule regexTest_append)
qed

lemma regexTest_no_break_space:
  "regexTest (lit ''buy'' @ [WsStar] @ lit ''now'') (''Buy'' @ [CHR 0xA0] @ ''now'')"
  by code_simp

lemma toLowerCase_latin1:
  "toLowerCase (''Caf'' @ [CHR 0xC9, CHR 0xD7, CHR 0xDF]) = ''caf'' @ [CHR 0xE9, CHR 0xD7, CHR 0xDF]"
  by code_simp

lemma isDeleteAction_delete_account:
  "pc_blockDeleteActions config \<Longrightarrow> isDeleteAction config (Some (pre @ ''Delete account'' @ post))"
  using regexTest_delete [of pre post]
  by (simp add: isDeleteAction_def truthy_def DELETE_PATTERNS_def del: append.simps append_Cons append_Nil)

lemma checkCommand_allowed_iff:
  "pr_allowed (fst (checkCommand hostname now command tabUrl elementName ps)) \<longleftrightarrow>
     domainPasses hostname (ps_config ps) tabUrl \<and> rc_allowed (fst (checkRateLimits now ps)) \<and>
     \<not> ((cmd_type command = CmdClick \<or> cmd_type command = CmdType) \<and>
         (isPaymentAction (ps_config ps) elementName \<or> isDeleteAction (ps_config ps) elementName))"
  by (cases "checkRateLimits now ps")
     (use checkRateLimits_config [of now ps] in
       \<open>auto simp: checkCommand_def domainPasses_def Let_def split: prod.splits\<close>)

lemma checkCommand_delete_reason:
  assumes "domainPasses hostname (ps_config ps) tabUrl" "rc_allowed (fst (checkRateLimits now ps))"
    "cmd_type command = CmdClick \<or> cmd_type command = CmdType"
    "\<not> isPaymentAction (ps_config ps) elementName" "isDeleteAction (ps_config ps) elementName"
  shows "pr_reason (fst (checkCommand hostname now command tabUrl elementName ps))
          = Some (''Delete action blocked: '' @ the elementName)"
  using assms checkRateLimits_config [of now ps]
  by (cases "checkRateLimits now ps")
     (auto simp: checkCommand_def domainPasses_def Let_def split: prod.splits)

lemma not_truthy_no_pattern:
  "\<not> truthy elementName \<Longrightarrow> \<not> isPaymentAction config elementName \<and> \<not> isDeleteAction config elementName"
  by (simp add: isPaymentAction_def isDeleteAction_def)

text \<open>
  Claim C6. For a command that is neither a click nor a type, or whose element name is
  absent or empty, \<open>checkCommand\<close> allows exactly when the domain check and the rate limit
  pass: no pattern can deny it. With \<open>blockDeleteActions\<close> set and a name that contains
  \<open>Delete account\<close>, a click and a type are denied, with the reason
  \<open>Delete action blocked: <name>\<close> when nothing denied them earlier, while a hover is
  allowed exactly when the domain check and the rate limit pass.
\<close>

theorem checkCommand_patterns:
  "((cmd_type command \<noteq> CmdClick \<and> cmd_type command \<noteq> CmdType) \<or> \<not> truthy elementName \<longrightarrow>
      pr_allowed (fst (checkCommand hostname now command tabUrl elementName ps)) =
        (domainPasses hostname (ps_config ps) tabUrl \<and> rc_allowed (fst (checkRateLimits now ps)))) \<and>
   (pc_blockDeleteActions (ps_config ps) \<and> elementName = Some (pre @ ''Delete account'' @ post) \<longrightarrow>
      (cmd_type command = CmdClick \<or> cmd_type command = CmdType \<longrightarrow>
         \<not> pr_allowed (fst (checkCommand hostname now command tabUrl elementName ps)) \<and>
         (domainPasses hostname (ps_config ps) tabUrl \<and> rc_allowed (fst (checkRateLimits now ps)) \<and>
          \<not> isPaymentAction (ps_config ps) elementName \<longrightarrow>
            pr_reason (fst (checkCommand hostname now command tabUrl elementName ps))
              = Some (''Delete action blocked: '' @ pre @ ''Delete account'' @ post))) \<and>
      (cmd_type command = CmdHover \<longrightarrow>
         pr_allowed (fst (checkCommand hostname now command tabUrl elementName ps)) =
           (domainPasses hostname (ps_config ps) tabUrl \<and> rc_allowed (fst (checkRateLimits now ps)))))"
proof (intro conjI impI)
  assume "(cmd_type command \<noteq> CmdClick \<and> cmd_type command \<noteq> CmdType) \<or> \<not> truthy elementName"
  then show "pr_allowed (fst (checkCommand hostname now command tabUrl elementName ps)) =
        (domainPasses hostname (ps_config ps) tabUrl \<and> rc_allowed (fst (checkRateLimits now ps)))"
    using not_truthy_no_pattern [of elementName "ps_config ps"]
    by (auto simp: checkCommand_allowed_iff)
next
  assume a: "pc_blockDeleteActions (ps_config ps) \<and> elementName = Some (pre @ ''Delete account'' @ post)"
    and b: "cmd_type command = CmdClick \<or> cmd_type command = CmdType"
  from a have "isDeleteAction (ps_config ps) elementName"
    using isDeleteAction_delete_account by blast
  with b show "\<not> pr_allowed (fst (checkCommand hostname now command tabUrl elementName ps))"
    by (simp add: checkCommand_allowed_iff)
next
  assume a: "pc_blockDeleteActions (ps_config ps) \<and> elementName = Some (pre @ ''Delete account'' @ post)"
    and b: "cmd_type command = CmdClick \<or> cmd_type command = CmdType"
    and c: "domainPasses hostname (ps_config ps) tabUrl \<and> rc_allowed (fst (checkRateLimits now ps)) \<and>
          \<not> isPaymentAction (ps_config ps) elementName"
  from a have d: "isDeleteAction (ps_config ps) elementName"
    using isDeleteAction_delete_account by blast
  from checkCommand_delete_reason [of hostname ps tabUrl now command elementName] a b c d
  show "pr_reason (fst (checkCommand hostname now command tabUrl elementName ps))
              = Some (''Delete action blocked: '' @ pre @ ''Delete account'' @ post)"
    by (simp del: append.simps append_Cons append_Nil)
next
  assume "cmd_type command = CmdHover"
  then show "pr_allowed (fst (checkCommand hostname now command tabUrl elementName ps)) =
           (domainPasses hostname (ps_config ps) tabUrl \<and> rc_allowed (fst (checkRateLimits now ps)))"
    by (simp add: checkCommand_allowed_iff)
qed

theorem checkCommand_patterns_witness:
  "\<not> pr_allowed (fst (checkCommand exHostname 5000 (exCommand CmdClick) (Some ''https://a/'')
         (Some ''Delete account'') (exPolicyState defaultConfig [])))
   \<and> pr_reason (fst (checkCommand exHostname 5000 (exCommand CmdClick) (Some ''https://a/'')
         (Some ''Delete account'') (exPolicyState defaultConfig [])))
       = Some ''Delete action blocked: Delete account''
   \<and> \<not> pr_allowed (fst (checkCommand exHostname 5000 (exCommand CmdType) (Some ''https://a/'')
         (Some ''Delete account'') (exPolicyState defaultConfig [])))
   \<and> pr_allowed (fst (checkCommand exHostname 5000 (exCommand CmdHover) (Some ''https://a/'')
         (Some ''Delete account'') (exPolicyState defaultConfig [])))
   \<and> pr_allowed (fst (checkCommand exHostname 5000 (exCommand CmdClick) (Some ''https://a/'')
         None (exPolicyState defaultConfig [])))"
proof -
  let ?ps = "exPolicyState defaultConfig []"
  let ?u = "Some ''https://a/''"
  let ?n = "Some ''Delete account''"
  have n: "?n = Some ([] @ ''Delete account'' @ [])" by simp
  have b: "pc_blockDeleteActions (ps_config ?ps)"
    by (simp add: exPolicyState_def defaultConfig_def)
  have d: "domainPasses exHostname (ps_config ?ps) ?u"
    by (simp add: exPolicyState_def defaultConfig_def domainPasses_def isDomainAllowed_def)
  have r: "rc_allowed (fst (checkRateLimits 5000 ?ps))"
    by (simp add: exPolicyState_def defaultConfig_def checkRateLimits_def)
  have p: "\<not> isPaymentAction (ps_config ?ps) ?n"
    by code_simp
  note t = checkCommand_patterns [where ps = ?ps and hostname = exHostname and now = 5000
      and tabUrl = ?u and elementName = ?n and pre = "[]" and post = "[]"]
  have w1: "\<not> pr_allowed (fst (checkCommand exHostname 5000 (exCommand CmdClick) ?u ?n ?ps))"
       "pr_reason (fst (checkCommand exHostname 5000 (exCommand CmdClick) ?u ?n ?ps))
          = Some ''Delete action blocked: Delete account''"
    using t [where command = "exCommand CmdClick"] b d r p by (simp_all add: exCommand_def)
  have w2: "\<not> pr_allowed (fst (checkCommand exHostname 5000 (exCommand CmdType) ?u ?n ?ps))"
    using t [where command = "exCommand CmdType"] b by (simp add: exCommand_def)
  have w3: "pr_allowed (fst (checkCommand exHostname 5000 (exCommand CmdHover) ?u ?n ?ps))"
    using t [where command = "exCommand CmdHover"] b d r by (simp add: exCommand_def)
  have w4: "pr_allowed (fst (checkCommand exHostname 5000 (exCommand CmdClick) ?u None ?ps))"
    using checkCommand_patterns [where ps = ?ps and hostname = exHostname and now = 5000
      and tabUrl = ?u and elementName = None and command = "exCommand CmdClick"] d r
    by (simp add: truthy_def)
  from w1 w2 w3 w4 show ?thesis by simp
qed

lemma dropWhile_sorted: "sorted xs \<Longrightarrow> dropWhile (\<lambda>t. t < a) xs = filter (\<lambda>t. (a::int) \<le> t) xs"
proof (induction xs)
  case Nil
  then show ?case by simp
next
  case (Cons x xs)
  show ?case
  proof (cases "x < a")
    case True
    with Cons show ?thesis by simp
  next
    case False
    with Cons.prems have "\<forall>t\<in>set xs. a \<le> t" by auto
    then have "filter (\<lambda>t. a \<le> t) xs = xs" by (simp add: filter_id_conv)
    with False show ?thesis by simp
  qed
qed

lemma checkRateLimits_sorted:
  assumes "sorted (ps_commandHistory ps)"
  shows "rc_allowed (fst (checkRateLimits now ps)) =
          (\<not> (int (countSince (now - 60000) (ps_commandHistory ps)) \<ge> pc_maxCommandsPerMinute (ps_config ps)
             \<or> int (countAfter (now - 1000) (ps_commandHistory ps)) \<ge> pc_maxCommandsPerSecond (ps_config ps)))"
proof -
  have d: "dropWhile (\<lambda>t. t < now - 60000) (ps_commandHistory ps)
           = filter (\<lambda>t. now - 60000 \<le> t) (ps_commandHistory ps)"
    using assms by (rule dropWhile_sorted)
  have "filter (\<lambda>t. now - 1000 < t) (filter (\<lambda>t. now - 60000 \<le> t) (ps_commandHistory ps))
        = filter (\<lambda>t. now - 1000 < t) (ps_commandHistory ps)"
    by (simp add: filter_filter) (rule filter_cong, auto)
  with d show ?thesis
    by (simp add: checkRateLimits_def Let_def countSince_def countAfter_def)
qed

lemma checkCommand_history:
  "ps_commandHistory (snd (checkCommand hostname now command tabUrl elementName ps)) =
     (if pr_allowed (fst (checkCommand hostname now command tabUrl elementName ps))
      then dropWhile (\<lambda>t. t < now - 60000) (ps_commandHistory ps) @ [now]
      else if domainPasses hostname (ps_config ps) tabUrl
      then dropWhile (\<lambda>t. t < now - 60000) (ps_commandHistory ps)
      else ps_commandHistory ps)"
  using checkRateLimits_history [of now ps]
  by (cases "checkRateLimits now ps")
     (auto simp: checkCommand_def domainPasses_def Let_def recordCommand_def split: prod.splits)

lemma checkCommand_config:
  "ps_config (snd (checkCommand hostname now command tabUrl elementName ps)) = ps_config ps"
  using checkRateLimits_config [of now ps]
  by (cases "checkRateLimits now ps")
     (auto simp: checkCommand_def Let_def recordCommand_def split: prod.splits)

lemma checkCommand_rate_reason:
  assumes "domainPasses hostname (ps_config ps) tabUrl" "\<not> rc_allowed (fst (checkRateLimits now ps))"
  shows "pr_reason (fst (checkCommand hostname now command tabUrl elementName ps))
          = rc_reason (fst (checkRateLimits now ps))"
  using assms
  by (cases "checkRateLimits now ps")
     (auto simp: checkCommand_def domainPasses_def Let_def split: prod.splits)

lemma two_acts:
  assumes s: "pc_maxCommandsPerSecond (ps_config ps) = 1"
    and m: "2 \<le> pc_maxCommandsPerMinute (ps_config ps)"
    and h: "ps_commandHistory ps = []"
    and t: "\<bar>t2 - t1\<bar> < 1000"
    and d1: "domainPasses hostname (ps_config ps) url1"
    and p1: "\<not> patternBlocks (ps_config ps) command1 name1"
    and d2: "domainPasses hostname (ps_config ps) url2"
  shows "pr_allowed (fst (checkCommand hostname t1 command1 url1 name1 ps)) \<and>
         \<not> pr_allowed (fst (checkCommand hostname t2 command2 url2 name2
                              (snd (checkCommand hostname t1 command1 url1 name1 ps)))) \<and>
         pr_reason (fst (checkCommand hostname t2 command2 url2 name2
                              (snd (checkCommand hostname t1 command1 url1 name1 ps))))
           = Some ''Rate limit exceeded (per second)''"
proof -
  let ?r1 = "checkCommand hostname t1 command1 url1 name1 ps"
  have r1: "rc_allowed (fst (checkRateLimits t1 ps))"
    using s m h by (simp add: checkRateLimits_def Let_def)
  with d1 p1 have a1: "pr_allowed (fst ?r1)"
    by (simp add: checkCommand_allowed_iff patternBlocks_def)
  have h1: "ps_commandHistory (snd ?r1) = [t1]"
    using a1 h by (simp add: checkCommand_history)
  have c1: "ps_config (snd ?r1) = ps_config ps" by (rule checkCommand_config)
  from t have "\<not> t1 < t2 - 60000" "t2 - 1000 < t1" by linarith+
  then have r2: "\<not> rc_allowed (fst (checkRateLimits t2 (snd ?r1)))"
    and rr: "rc_reason (fst (checkRateLimits t2 (snd ?r1))) = Some ''Rate limit exceeded (per second)''"
    using s m h1 c1 by (simp_all add: checkRateLimits_def Let_def)
  from d2 c1 have d2': "domainPasses hostname (ps_config (snd ?r1)) url2" by simp
  from r2 have "\<not> pr_allowed (fst (checkCommand hostname t2 command2 url2 name2 (snd ?r1)))"
    by (simp add: checkCommand_allowed_iff)
  moreover from checkCommand_rate_reason [OF d2' r2] rr
  have "pr_reason (fst (checkCommand hostname t2 command2 url2 name2 (snd ?r1)))
           = Some ''Rate limit exceeded (per second)''" by simp
  ultimately show ?thesis using a1 by simp
qed

lemma checkCommand_sorted:
  assumes "sorted (ps_commandHistory ps)" and "\<forall>t\<in>set (ps_commandHistory ps). t \<le> now"
  shows "sorted (ps_commandHistory (snd (checkCommand hostname now command tabUrl elementName ps)))"
proof -
  let ?cleaned = "dropWhile (\<lambda>t. t < now - 60000) (ps_commandHistory ps)"
  have s: "sorted ?cleaned" using assms(1) by (rule sorted_dropWhile)
  have "set ?cleaned \<subseteq> set (ps_commandHistory ps)" by (rule set_dropWhileD [THEN subsetI])
  with assms(2) have "\<forall>t\<in>set ?cleaned. t \<le> now" by blast
  with s have "sorted (?cleaned @ [now])" by (simp add: sorted_append)
  with s assms(1) show ?thesis by (simp add: checkCommand_history)
qed

text \<open>
  Claim C4. On a sorted history the rate-limit check allows exactly when fewer than
  \<open>maxCommandsPerMinute\<close> timestamps lie in the last 60 seconds (\<open>now - 60000 \<le> t\<close>) and
  fewer than \<open>maxCommandsPerSecond\<close> in the last second (\<open>now - 1000 < t\<close>). \<open>checkCommand\<close>
  appends \<open>now\<close> to the history exactly when it allows the command; a denial leaves the
  history as it was, or with its expired head dropped. With \<open>maxCommandsPerSecond = 1\<close>, at
  least two commands per minute, an empty history and two commands less than 1000 ms
  apart that pass the domain check, the first (not blocked by a pattern) is allowed and the
  second is denied with the reason \<open>Rate limit exceeded (per second)\<close>.
\<close>

theorem checkCommand_rate_limit:
  "(sorted (ps_commandHistory ps) \<longrightarrow>
      rc_allowed (fst (checkRateLimits now ps)) =
        (\<not> (int (countSince (now - 60000) (ps_commandHistory ps)) \<ge> pc_maxCommandsPerMinute (ps_config ps)
           \<or> int (countAfter (now - 1000) (ps_commandHistory ps)) \<ge> pc_maxCommandsPerSecond (ps_config ps)))) \<and>
   ps_commandHistory (snd (checkCommand hostname now command tabUrl elementName ps)) =
     (if pr_allowed (fst (checkCommand hostname now command tabUrl elementName ps))
      then dropWhile (\<lambda>t. t < now - 60000) (ps_commandHistory ps) @ [now]
      else if domainPasses hostname (ps_config ps) tabUrl
      then dropWhile (\<lambda>t. t < now - 60000) (ps_commandHistory ps)
      else ps_commandHistory ps) \<and>
   (pc_maxCommandsPerSecond (ps_config ps) = 1 \<and> 2 \<le> pc_maxCommandsPerMinute (ps_config ps) \<and>
    ps_commandHistory ps = [] \<and> \<bar>t2 - t1\<bar> < 1000 \<and>
    domainPasses hostname (ps_config ps) url1 \<and> \<not> patternBlocks (ps_config ps) command1 name1 \<and>
    domainPasses hostname (ps_config ps) url2 \<longrightarrow>
      pr_allowed (fst (checkCommand hostname t1 command1 url1 name1 ps)) \<and>
      \<not> pr_allowed (fst (checkCommand hostname t2 command2 url2 name2
                           (snd (checkCommand hostname t1 command1 url1 name1 ps)))) \<and>
      pr_reason (fst (checkCommand hostname t2 command2 url2 name2
                           (snd (checkCommand hostname t1 command1 url1 name1 ps))))
        = Some ''Rate limit exceeded (per second)'' \<and>
      includesStr ''Rate limit exceeded (per second)'' ''per second'')"
proof (intro conjI impI)
  assume "sorted (ps_commandHistory ps)"
  then show "rc_allowed (fst (checkRateLimits now ps)) =
        (\<not> (int (countSince (now - 60000) (ps_commandHistory ps)) \<ge> pc_maxCommandsPerMinute (ps_config ps)
           \<or> int (countAfter (now - 1000) (ps_commandHistory ps)) \<ge> pc_maxCommandsPerSecond (ps_config ps)))"
    by (rule checkRateLimits_sorted)
next
  show "ps_commandHistory (snd (checkCommand hostname now command tabUrl elementName ps)) =
     (if pr_allowed (fst (checkCommand hostname now command tabUrl elementName ps))
      then dropWhile (\<lambda>t. t < now - 60000) (ps_commandHistory ps) @ [now]
      else if domainPasses hostname (ps_config ps) tabUrl
      then dropWhile (\<lambda>t. t < now - 60000) (ps_commandHistory ps)
      else ps_commandHistory ps)"
    by (rule checkCommand_history)
next
  assume a: "pc_maxCommandsPerSecond (ps_config ps) = 1 \<and> 2 \<le> pc_maxCommandsPerMinute (ps_config ps) \<and>
    ps_commandHistory ps = [] \<and> \<bar>t2 - t1\<bar> < 1000 \<and>
    domainPasses hostname (ps_config ps) url1 \<and> \<not> patternBlocks (ps_config ps) command1 name1 \<and>
    domainPasses hostname (ps_config ps) url2"
  then have "pr_allowed (fst (checkCommand hostname t1 command1 url1 name1 ps)) \<and>
         \<not> pr_allowed (fst (checkCommand hostname t2 command2 url2 name2
                              (snd (checkCommand hostname t1 command1 url1 name1 ps)))) \<and>
         pr_reason (fst (checkCommand hostname t2 command2 url2 name2
                              (snd (checkCommand hostname t1 command1 url1 name1 ps))))
           = Some ''Rate limit exceeded (per second)''"
    by (intro two_acts) simp_all
  moreover have "includesStr ''Rate limit exceeded (per second)'' ''per second''" by simp
  ultimately show
     "pr_allowed (fst (checkCommand hostname t1 command1 url1 name1 ps))"
     "\<not> pr_allowed (fst (checkCommand hostname t2 command2 url2 name2
                           (snd (checkCommand hostname t1 command1 url1 name1 ps))))"
     "pr_reason (fst (checkCommand hostname t2 command2 url2 name2
                           (snd (checkCommand hostname t1 command1 url1 name1 ps))))
        = Some ''Rate limit exceeded (per second)''"
     "includesStr ''Rate limit exceeded (per second)'' ''per second''"
    by simp_all
qed

theorem checkCommand_rate_limit_witness:
  "sorted [1000, 61500, 62000 :: int]
   \<and> countSince (62000 - 60000) [1000, 61500, 62000] = 2
   \<and> countAfter (62000 - 1000) [1000, 61500, 62000] = 2
   \<and> rc_allowed (fst (checkRateLimits 62000 (exPolicyState defaultConfig [1000, 61500, 62000])))
   \<and> \<not> rc_allowed (fst (checkRateLimits 62000
         (exPolicyState (defaultConfig\<lparr> pc_maxCommandsPerSecond := 2 \<rparr>) [1000, 61500, 62000])))
   \<and> pr_allowed (fst (checkCommand exHostname 5000 (exCommand CmdClick) (Some ''https://a/'') None
         (exPolicyState (defaultConfig\<lparr> pc_maxCommandsPerSecond := 1 \<rparr>) [])))
   \<and> \<not> pr_allowed (fst (checkCommand exHostname 5999 (exCommand CmdHover) (Some ''https://a/'') None
         (snd (checkCommand exHostname 5000 (exCommand CmdClick) (Some ''https://a/'') None
                (exPolicyState (defaultConfig\<lparr> pc_maxCommandsPerSecond := 1 \<rparr>) [])))))
   \<and> pr_reason (fst (checkCommand exHostname 5999 (exCommand CmdHover) (Some ''https://a/'') None
         (snd (checkCommand exHostname 5000 (exCommand CmdClick) (Some ''https://a/'') None
                (exPolicyState (defaultConfig\<lparr> pc_maxCommandsPerSecond := 1 \<rparr>) [])))))
       = Some ''Rate limit exceeded (per second)''
   \<and> ps_commandHistory (snd (checkCommand exHostname 5999 (exCommand CmdHover) (Some ''https://a/'') None
         (snd (checkCommand exHostname 5000 (exCommand CmdClick) (Some ''https://a/'') None
                (exPolicyState (defaultConfig\<lparr> pc_maxCommandsPerSecond := 1 \<rparr>) []))))) = [5000]"
proof -
  let ?ps = "exPolicyState (defaultConfig\<lparr> pc_maxCommandsPerSecond := 1 \<rparr>) []"
  let ?u = "Some ''https://a/''"
  have c: "countSince (62000 - 60000) [1000, 61500, 62000] = 2"
          "countAfter (62000 - 1000) [1000, 61500, 62000] = 2"
    by (simp_all add: countSince_def countAfter_def)
  have s: "sorted [1000, 61500, 62000 :: int]" by simp
  have w1: "rc_allowed (fst (checkRateLimits 62000 (exPolicyState defaultConfig [1000, 61500, 62000])))"
    using checkCommand_rate_limit [where ps = "exPolicyState defaultConfig [1000, 61500, 62000]"
        and now = 62000] s c
    by (simp add: exPolicyState_def defaultConfig_def)
  have w2: "\<not> rc_allowed (fst (checkRateLimits 62000
         (exPolicyState (defaultConfig\<lparr> pc_maxCommandsPerSecond := 2 \<rparr>) [1000, 61500, 62000])))"
    using checkCommand_rate_limit [where ps = "exPolicyState (defaultConfig\<lparr> pc_maxCommandsPerSecond := 2 \<rparr>) [1000, 61500, 62000]"
        and now = 62000] s c
    by (simp add: exPolicyState_def defaultConfig_def)
  have hyp: "pc_maxCommandsPerSecond (ps_config ?ps) = 1 \<and> 2 \<le> pc_maxCommandsPerMinute (ps_config ?ps) \<and>
    ps_commandHistory ?ps = [] \<and> \<bar>5999 - 5000\<bar> < (1000::int) \<and>
    domainPasses exHostname (ps_config ?ps) ?u \<and> \<not> patternBlocks (ps_config ?ps) (exCommand CmdClick) None \<and>
    domainPasses exHostname (ps_config ?ps) ?u"
    by (simp add: exPolicyState_def defaultConfig_def domainPasses_def isDomainAllowed_def
        patternBlocks_def isPaymentAction_def isDeleteAction_def truthy_def)
  note t = checkCommand_rate_limit [where ps = ?ps and hostname = exHostname and ?t1.0 = 5000
      and ?t2.0 = 5999 and ?url1.0 = ?u and ?url2.0 = ?u and ?command1.0 = "exCommand CmdClick"
      and ?name1.0 = None and ?command2.0 = "exCommand CmdHover" and ?name2.0 = None]
  from t hyp have w3:
    "pr_allowed (fst (checkCommand exHostname 5000 (exCommand CmdClick) ?u None ?ps))"
    "\<not> pr_allowed (fst (checkCommand exHostname 5999 (exCommand CmdHover) ?u None
         (snd (checkCommand exHostname 5000 (exCommand CmdClick) ?u None ?ps))))"
    "pr_reason (fst (checkCommand exHostname 5999 (exCommand CmdHover) ?u None
         (snd (checkCommand exHostname 5000 (exCommand CmdClick) ?u None ?ps))))
       = Some ''Rate limit exceeded (per second)''"
    by blast+
  let ?ps1 = "snd (checkCommand exHostname 5000 (exCommand CmdClick) ?u None ?ps)"
  have h1: "ps_commandHistory ?ps1 = [5000]"
    using checkCommand_rate_limit [where ps = ?ps and hostname = exHostname and now = 5000
        and command = "exCommand CmdClick" and tabUrl = ?u and elementName = None] w3(1)
    by (simp add: exPolicyState_def)
  have c1: "domainPasses exHostname (ps_config ?ps1) ?u"
    by (simp add: checkCommand_config exPolicyState_def defaultConfig_def domainPasses_def isDomainAllowed_def)
  have w4: "ps_commandHistory (snd (checkCommand exHostname 5999 (exCommand CmdHover) ?u None ?ps1)) = [5000]"
    using checkCommand_rate_limit [where ps = ?ps1 and hostname = exHostname and now = 5999
        and command = "exCommand CmdHover" and tabUrl = ?u and elementName = None] w3(2) h1 c1
    by simp
  from s c w1 w2 w3 w4 show ?thesis by simp
qed

section \<open>Properties of the watchers\<close>

lemma diffCandidate_closed:
  "diffCandidate old new = (if candidateChanged old new then Some (changedFields old new) else None)"
proof -
  have c: "candidateChanged old new \<longleftrightarrow>
      rectDiffers (c_rect old) (c_rect new) \<or> stateDiffers (c_state old) (c_state new) \<or>
      c_name old \<noteq> c_name new \<or> c_value old \<noteq> c_value new \<or> c_occluded old \<noteq> c_occluded new \<or>
      ctxDiffers (c_ctx old) (c_ctx new)"
    unfolding candidateChanged_def rectDiffers_def stateDiffers_def ctxDiffers_def by blast
  show ?thesis
    unfolding c diffCandidate_def Let_def changedFields_def noChanges_def
    by (cases "rectDiffers (c_rect old) (c_rect new)"; cases "stateDiffers (c_state old) (c_state new)";
        cases "c_name old = c_name new"; cases "c_value old = c_value new";
        cases "c_occluded old = c_occluded new"; cases "ctxDiffers (c_ctx old) (c_ctx new)") simp_all
qed

lemma scanPrevious_updated:
  "snd (scanPrevious currentMap prev) = List.map_filter (updateEntry currentMap) prev"
proof (induction prev)
  case Nil
  then show ?case by (simp add: List.map_filter_simps)
next
  case (Cons e prev)
  obtain i old where e: "e = (i, old)" by (cases e)
  obtain removed updated where r: "scanPrevious currentMap prev = (removed, updated)"
    by (cases "scanPrevious currentMap prev")
  have u: "u_id (changedFields old new) = None" for new by (simp add: changedFields_def)
  have ue: "updateEntry currentMap (i, old) =
      (case map_of currentMap i of
         None \<Rightarrow> None
       | Some new \<Rightarrow> (case diffCandidate old new of
                        None \<Rightarrow> None
                      | Some diff \<Rightarrow> Some (diff\<lparr> u_id := Some (orKeep (u_id diff) i) \<rparr>)))"
    by (simp add: updateEntry_def diffCandidate_closed u orKeep_def split: option.splits)
  from Cons r have "updated = List.map_filter (updateEntry currentMap) prev" by simp
  then show ?case
    by (simp add: e r List.map_filter_simps ue split: option.splits)
qed

lemma scanPrevious_removed:
  "fst (scanPrevious currentMap prev) = map fst (filter (\<lambda>e. map_of currentMap (fst e) = None) prev)"
proof (induction prev)
  case Nil
  then show ?case by simp
next
  case (Cons e prev)
  obtain i old where e: "e = (i, old)" by (cases e)
  obtain removed updated where r: "scanPrevious currentMap prev = (removed, updated)"
    by (cases "scanPrevious currentMap prev")
  from Cons r show ?case
    by (simp add: e r split: option.splits)
qed

lemma addedMap_id: "addedMap cs i = Some c \<Longrightarrow> c_id c = i \<and> c \<in> set cs"
proof -
  assume "addedMap cs i = Some c"
  then have "(i, c) \<in> set (rev (map (\<lambda>c. (c_id c, c)) cs))"
    unfolding addedMap_def by (rule map_of_SomeD)
  then show ?thesis by auto
qed

lemma mapFromCandidates_id:
  "map_of (mapFromCandidates cs) i = Some c \<Longrightarrow> c_id c = i \<and> c \<in> set cs"
  using addedMap_id [of cs i c]
  by (simp add: mapFromCandidates_def map_of_applyAdditions)

text \<open>
  Claim C9. For candidates \<open>old\<close> and \<open>new\<close> the diff is non-null exactly when some rect
  coordinate differs by more than 2 pixels, or a state boolean differs, or the name, the
  value or the occlusion flag differ, or \<open>inModal\<close> or \<open>inNav\<close> differ. A non-null diff is
  \<open>changedFields old new\<close>: \<open>rect\<close>, \<open>rectN\<close> and \<open>hit\<close> together when the rect changed, the
  whole \<open>state\<close> when a boolean changed, the whole \<open>ctx\<close> when the context changed, each of
  \<open>name\<close>, \<open>value\<close> and \<open>occluded\<close> on its own, and no other property. The \<open>updated\<close>
  list of \<open>computeDelta\<close> holds, in the order of the previous candidates, that diff with the
  id added for every previous id that the current map has with a non-null diff; the
  candidate found under an id has that id.
\<close>

theorem diffCandidate_changes:
  "(diffCandidate old new \<noteq> None) = candidateChanged old new \<and>
   (\<forall>changes. diffCandidate old new = Some changes \<longrightarrow> changes = changedFields old new) \<and>
   dl_updated (computeDelta now prev cur) = List.map_filter (updateEntry (mapFromCandidates cur)) prev \<and>
   (\<forall>i c. map_of (mapFromCandidates cur) i = Some c \<longrightarrow> c_id c = i \<and> c \<in> set cur)"
proof (intro conjI allI impI)
  show "(diffCandidate old new \<noteq> None) = candidateChanged old new"
    by (simp add: diffCandidate_closed)
next
  fix changes
  assume "diffCandidate old new = Some changes"
  then show "changes = changedFields old new"
    by (simp add: diffCandidate_closed split: if_splits)
next
  show "dl_updated (computeDelta now prev cur) = List.map_filter (updateEntry (mapFromCandidates cur)) prev"
    using scanPrevious_updated [of "mapFromCandidates cur" prev]
    by (cases "scanPrevious (mapFromCandidates cur) prev") (simp add: computeDelta_def Let_def)
next
  fix i c
  assume "map_of (mapFromCandidates cur) i = Some c"
  then show "c_id c = i" "c \<in> set cur" using mapFromCandidates_id by blast+
qed

theorem diffCandidate_changes_witness:
  "candidateChanged (exCandidate ''a_0'' ''button'' ''Sign in'') (exMoved ''Sign out'' 13 10)
   \<and> diffCandidate (exCandidate ''a_0'' ''button'' ''Sign in'') (exMoved ''Sign out'' 13 10)
      = Some (noChanges\<lparr> u_rect := Some \<lparr> rect_x = 13, rect_y = 10, rect_w = 100, rect_h = 30 \<rparr>,
                          u_rectN := Some \<lparr> rectN_x = 0, rectN_y = 0, rectN_w = 0, rectN_h = 0 \<rparr>,
                          u_hit := Some \<lparr> hit_cx = 60, hit_cy = 25 \<rparr>,
                          u_name := Some ''Sign out'' \<rparr>)
   \<and> dl_updated (computeDelta 0 [(''a_0'', exCandidate ''a_0'' ''button'' ''Sign in'')] [exMoved ''Sign out'' 13 10])
      = [noChanges\<lparr> u_id := Some ''a_0'',
                    u_rect := Some \<lparr> rect_x = 13, rect_y = 10, rect_w = 100, rect_h = 30 \<rparr>,
                    u_rectN := Some \<lparr> rectN_x = 0, rectN_y = 0, rectN_w = 0, rectN_h = 0 \<rparr>,
                    u_hit := Some \<lparr> hit_cx = 60, hit_cy = 25 \<rparr>,
                    u_name := Some ''Sign out'' \<rparr>]
   \<and> \<not> candidateChanged (exCandidate ''a_0'' ''button'' ''Sign in'') (exMoved ''Sign in'' 12 8)
   \<and> diffCandidate (exCandidate ''a_0'' ''button'' ''Sign in'') (exMoved ''Sign in'' 12 8) = None"
proof -
  let ?old = "exCandidate ''a_0'' ''button'' ''Sign in''"
  let ?new = "exMoved ''Sign out'' 13 10"
  let ?same = "exMoved ''Sign in'' 12 8"
  let ?ch = "noChanges\<lparr> u_rect := Some \<lparr> rect_x = 13, rect_y = 10, rect_w = 100, rect_h = 30 \<rparr>,
                          u_rectN := Some \<lparr> rectN_x = 0, rectN_y = 0, rectN_w = 0, rectN_h = 0 \<rparr>,
                          u_hit := Some \<lparr> hit_cx = 60, hit_cy = 25 \<rparr>,
                          u_name := Some ''Sign out'' \<rparr>"
  have c1: "candidateChanged ?old ?new" by code_simp
  have c2: "\<not> candidateChanged ?old ?same" by code_simp
  have f: "changedFields ?old ?new = ?ch" by code_simp
  have m: "List.map_filter (updateEntry (mapFromCandidates [?new])) [(''a_0'', ?old)]
           = [?ch\<lparr> u_id := Some ''a_0'' \<rparr>]" by code_simp
  note t1 = diffCandidate_changes [of ?old ?new 0 "[(''a_0'', ?old)]" "[?new]"]
  note t2 = diffCandidate_changes [of ?old ?same 0 "[]" "[]"]
  from t1 c1 have "diffCandidate ?old ?new \<noteq> None" by (simp only: simp_thms)
  then obtain ch where d: "diffCandidate ?old ?new = Some ch" by blast
  with t1 have "ch = changedFields ?old ?new" by blast
  with d f have d1: "diffCandidate ?old ?new = Some ?ch" by (simp only:)
  from t1 m have u: "dl_updated (computeDelta 0 [(''a_0'', ?old)] [?new]) = [?ch\<lparr> u_id := Some ''a_0'' \<rparr>]"
    by (simp only:)
  have u': "?ch\<lparr> u_id := Some ''a_0'' \<rparr> = noChanges\<lparr> u_id := Some ''a_0'',
                    u_rect := Some \<lparr> rect_x = 13, rect_y = 10, rect_w = 100, rect_h = 30 \<rparr>,
                    u_rectN := Some \<lparr> rectN_x = 0, rectN_y = 0, rectN_w = 0, rectN_h = 0 \<rparr>,
                    u_hit := Some \<lparr> hit_cx = 60, hit_cy = 25 \<rparr>,
                    u_name := Some ''Sign out'' \<rparr>" by simp
  from t2 c2 have d2: "diffCandidate ?old ?same = None" by (simp only: simp_thms)
  from c1 c2 d1 d2 u u' show ?thesis by (simp only: simp_thms)
qed

section \<open>Properties of the candidate search\<close>

lemma searchKeeps_iff: "searchKeeps search filters c \<longleftrightarrow> textMatches search c \<and> filtersHold filters c"
proof -
  have t: "(\<not> (search \<noteq> [] \<and> \<not> includesStr (toLowerCase (c_name c)) (toLowerCase search)
                     \<and> \<not> includesStr (toLowerCase (c_aria c)) (toLowerCase search)
                     \<and> \<not> includesStr (toLowerCase (c_id c)) (toLowerCase search))) = textMatches search c"
    by (auto simp: textMatches_def containsCI_def includesStr_iff)
  have f: "(case filters of
              None \<Rightarrow> True
            | Some f \<Rightarrow>
                if truthy (f_role f) \<and> Some (c_role c) \<noteq> f_role f then False
                else if truthy (f_tag f) \<and> Some (c_tag c) \<noteq> f_tag f then False
                else if f_visible f \<noteq> None \<and> Some (c_occluded c) = f_visible f then False
                else if f_enabled f \<noteq> None \<and> Some (st_disabled (c_state c)) = f_enabled f then False
                else True) = filtersHold filters c"
    by (cases filters) (auto simp: filtersHold_def truthy_def split: option.splits)
  show ?thesis
    unfolding searchKeeps_def Let_def
    by (simp only: f t [symmetric] if_not_P if_P split: if_splits) blast
qed

lemma searchKeeps_eq: "searchKeeps search filters = (\<lambda>c. textMatches search c \<and> filtersHold filters c)"
  by (rule ext) (rule searchKeeps_iff)

text \<open>
  Claim C8, as the code has it. \<open>searchCandidates\<close> returns, in the order of the tab's
  candidate map, exactly the candidates that contain the search text case-insensitively
  in name, aria or id (when the text is not empty) and that satisfy every filter that
  applies: a role or tag filter that is a non-empty string by exact string equality,
  \<open>visible = v\<close> by \<open>occluded = \<not> v\<close>, \<open>enabled = e\<close> by \<open>state.disabled = \<not> e\<close>. A role or tag
  filter that is the empty string is ignored. In particular the search for \<open>sign in\<close>
  with the role filter \<open>button\<close> returns only candidates of role \<open>button\<close> whose name, aria
  or id contains \<open>sign in\<close>.
\<close>

theorem searchCandidates_exact:
  "searchCandidates s tabId search filters =
     filter (\<lambda>c. textMatches search c \<and> filtersHold filters c) (getCandidates s tabId) \<and>
   (\<forall>c\<in>set (searchCandidates s tabId ''sign in'' (Some (exFilters (Some ''button'')))).
      c_role c = ''button'' \<and>
      (containsCI (c_name c) ''sign in'' \<or> containsCI (c_aria c) ''sign in'' \<or> containsCI (c_id c) ''sign in''))"
proof
  show g: "searchCandidates s tabId search filters =
     filter (\<lambda>c. textMatches search c \<and> filtersHold filters c) (getCandidates s tabId)" for search filters
    by (simp only: searchCandidates_def searchKeeps_eq)
  show "\<forall>c\<in>set (searchCandidates s tabId ''sign in'' (Some (exFilters (Some ''button'')))).
      c_role c = ''button'' \<and>
      (containsCI (c_name c) ''sign in'' \<or> containsCI (c_aria c) ''sign in'' \<or> containsCI (c_id c) ''sign in'')"
    unfolding g by (auto simp: textMatches_def filtersHold_def exFilters_def)
qed

theorem searchCandidates_exact_witness:
  "getCandidates (exWorld ''https://a/'' exCandidates) 1 = map snd exCandidates
   \<and> filter (\<lambda>c. textMatches ''SIGN in'' c \<and> filtersHold (Some (exFilters (Some ''button''))) c)
        (map snd exCandidates) = [exCandidate ''a_0'' ''button'' ''Sign in'']
   \<and> searchCandidates (exWorld ''https://a/'' exCandidates) 1 ''SIGN in'' (Some (exFilters (Some ''button'')))
       = [exCandidate ''a_0'' ''button'' ''Sign in'']"
proof -
  have g: "getCandidates (exWorld ''https://a/'' exCandidates) 1 = map snd exCandidates"
    by (simp add: getCandidates_def exWorld_def exTab_def)
  have k: "searchKeeps ''SIGN in'' (Some (exFilters (Some ''button''))) (exCandidate ''a_0'' ''button'' ''Sign in'')"
    "\<not> searchKeeps ''SIGN in'' (Some (exFilters (Some ''button''))) (exCandidate ''a_1'' ''link'' ''Sign in help'')"
    "\<not> searchKeeps ''SIGN in'' (Some (exFilters (Some ''button''))) (exCandidate ''a_2'' ''button'' ''Cancel'')"
    by code_simp+
  have e: "searchCandidates (exWorld ''https://a/'' exCandidates) 1 ''SIGN in'' (Some (exFilters (Some ''button'')))
       = [exCandidate ''a_0'' ''button'' ''Sign in'']"
    unfolding searchCandidates_def g using k by (simp add: exCandidates_def)
  from searchCandidates_exact [of "exWorld ''https://a/'' exCandidates" 1 "''SIGN in''"
      "Some (exFilters (Some ''button''))"] g e
  show ?thesis by simp
qed

text \<open>
  Claim C8 as stated fails for a role filter that is the empty string: the filter is
  given, yet the search returns a candidate whose role is \<open>button\<close>, not the empty string.
\<close>

theorem searchCandidates_empty_role_counterexample:
  "searchCandidates (exWorld ''https://a/'' exCandidates) 1 ''cancel'' (Some (exFilters (Some '''')))
     = [exCandidate ''a_2'' ''button'' ''Cancel'']
   \<and> c_role (exCandidate ''a_2'' ''button'' ''Cancel'') \<noteq> ''''"
proof -
  have k: "\<not> searchKeeps ''cancel'' (Some (exFilters (Some ''''))) (exCandidate ''a_0'' ''button'' ''Sign in'')"
    "\<not> searchKeeps ''cancel'' (Some (exFilters (Some ''''))) (exCandidate ''a_1'' ''link'' ''Sign in help'')"
    "searchKeeps ''cancel'' (Some (exFilters (Some ''''))) (exCandidate ''a_2'' ''button'' ''Cancel'')"
    by code_simp+
  have g: "getCandidates (exWorld ''https://a/'' exCandidates) 1 = map snd exCandidates"
    by (simp add: getCandidates_def exWorld_def exTab_def)
  have r: "c_role (exCandidate ''a_2'' ''button'' ''Cancel'') \<noteq> ''''"
    by (simp add: exCandidate_def)
  have "searchCandidates (exWorld ''https://a/'' exCandidates) 1 ''cancel'' (Some (exFilters (Some '''')))
     = [exCandidate ''a_2'' ''button'' ''Cancel'']"
    unfolding searchCandidates_def g using k by (simp add: exCandidates_def)
  with r show ?thesis by simp
qed

section \<open>Properties of the executor\<close>

lemma ackVerify_status:
  "\<exists>v. ack_status (ackVerify now commandId i element) = AckVerify v \<and> \<not> v_rectChanged v
       \<and> v_id v = i \<and> v_stillVisible v = (element \<noteq> None)"
  by (cases element) (simp_all add: ackVerify_def Let_def)

text \<open>
  Claim C10. The ack that \<open>ackVerify\<close> builds is a verify ack with \<open>rectChanged = false\<close>,
  for every element and whatever its bounding rect is when the ack is built; hence every
  verify ack of \<open>executeClick\<close> and of \<open>executeHover\<close> carries \<open>rectChanged = false\<close>, and these
  return a verify ack whenever the target id is found.
\<close>

theorem ackVerify_rectChanged_false:
  "(\<exists>v. ack_status (ackVerify now commandId i element) = AckVerify v \<and> \<not> v_rectChanged v) \<and>
   (\<forall>v. ack_status (executeClick page now click) = AckVerify v \<longrightarrow> \<not> v_rectChanged v) \<and>
   (\<forall>v. ack_status (executeHover page now hover) = AckVerify v \<longrightarrow> \<not> v_rectChanged v) \<and>
   (page (ck_id click) \<noteq> None \<longrightarrow> (\<exists>v. ack_status (executeClick page now click) = AckVerify v)) \<and>
   (page (hv_id hover) \<noteq> None \<longrightarrow> (\<exists>v. ack_status (executeHover page now hover) = AckVerify v))"
proof (intro conjI allI impI)
  show "\<exists>v. ack_status (ackVerify now commandId i element) = AckVerify v \<and> \<not> v_rectChanged v"
    using ackVerify_status by blast
next
  fix v
  assume a: "ack_status (executeClick page now click) = AckVerify v"
  show "\<not> v_rectChanged v"
  proof (cases "page (ck_id click)")
    case None
    with a show ?thesis by (simp add: executeClick_def findElement_def ackFail_def)
  next
    case (Some el)
    with a have "ack_status (ackVerify now (ck_commandId click) (ck_id click) (Some el)) = AckVerify v"
      by (simp add: executeClick_def findElement_def)
    with ackVerify_status [of now "ck_commandId click" "ck_id click" "Some el"] show ?thesis by auto
  qed
next
  fix v
  assume a: "ack_status (executeHover page now hover) = AckVerify v"
  show "\<not> v_rectChanged v"
  proof (cases "page (hv_id hover)")
    case None
    with a show ?thesis by (simp add: executeHover_def findElement_def ackFail_def)
  next
    case (Some el)
    with a have "ack_status (ackVerify now (hv_commandId hover) (hv_id hover) (Some el)) = AckVerify v"
      by (simp add: executeHover_def findElement_def)
    with ackVerify_status [of now "hv_commandId hover" "hv_id hover" "Some el"] show ?thesis by auto
  qed
next
  assume "page (ck_id click) \<noteq> None"
  then obtain el where "page (ck_id click) = Some el" by blast
  then show "\<exists>v. ack_status (executeClick page now click) = AckVerify v"
    using ackVerify_status [of now "ck_commandId click" "ck_id click" "Some el"]
    by (auto simp: executeClick_def findElement_def)
next
  assume "page (hv_id hover) \<noteq> None"
  then obtain el where "page (hv_id hover) = Some el" by blast
  then show "\<exists>v. ack_status (executeHover page now hover) = AckVerify v"
    using ackVerify_status [of now "hv_commandId hover" "hv_id hover" "Some el"]
    by (auto simp: executeHover_def findElement_def)
qed

theorem ackVerify_rectChanged_false_witness:
  "exPage (ck_id (exClick ''a_0'')) \<noteq> None
   \<and> ack_status (executeClick exPage 7 (exClick ''a_0'')) =
       AckVerify \<lparr> v_id = ''a_0'', v_stillVisible = True, v_hitTestOk = True, v_rectChanged = False,
                   v_newRect = Some \<lparr> rect_x = 210, rect_y = 96, rect_w = 100, rect_h = 30 \<rparr> \<rparr>
   \<and> exPage (hv_id (exHover ''a_0'')) \<noteq> None
   \<and> (\<exists>v. ack_status (executeHover exPage 7 (exHover ''a_0'')) = AckVerify v \<and> \<not> v_rectChanged v)"
proof -
  have p: "exPage (ck_id (exClick ''a_0'')) \<noteq> None" "exPage (hv_id (exHover ''a_0'')) \<noteq> None"
    by (simp_all add: exPage_def exClick_def exHover_def)
  have r: "mathRound (1052 / 5) = 210" "mathRound (191 / 2) = 96" "mathRound 100 = 100" "mathRound 30 = 30"
    unfolding mathRound_def by (rule floor_unique; simp)+
  have e: "ack_status (executeClick exPage 7 (exClick ''a_0'')) =
       AckVerify \<lparr> v_id = ''a_0'', v_stillVisible = True, v_hitTestOk = True, v_rectChanged = False,
                   v_newRect = Some \<lparr> rect_x = 210, rect_y = 96, rect_w = 100, rect_h = 30 \<rparr> \<rparr>"
    by (simp add: executeClick_def findElement_def exPage_def exClick_def ackVerify_def r)
  note t = ackVerify_rectChanged_false [of 7 "''cmd_1''" "''a_0''" None exPage "exClick ''a_0''" "exHover ''a_0''"]
  from t p obtain v where v: "ack_status (executeHover exPage 7 (exHover ''a_0'')) = AckVerify v" by blast
  with t have "\<not> v_rectChanged v" by blast
  with v p e show ?thesis by blast
qed

section \<open>Properties of the command pipeline\<close>

lemma executeCommand_denied:
  assumes "\<not> pr_allowed (fst (policyCheck hostname now gen command g))"
  shows "executeCommand hostname now gen command g =
     g\<lparr> gw_policy := snd (policyCheck hostname now gen command g),
        gw_nextHandle := gw_nextHandle g + 1,
        gw_issued := gw_issued g @ [(gw_nextHandle g, command\<lparr> cmd_commandId := Some (assignedId gen command) \<rparr>)],
        gw_resolved := gw_resolved g @
          [(gw_nextHandle g, failAck (assignedId gen command)
              (if truthy (pr_reason (fst (policyCheck hostname now gen command g)))
               then the (pr_reason (fst (policyCheck hostname now gen command g)))
               else ''Policy denied'') now)] \<rparr>"
  using assms by (simp add: executeCommand_def Let_def)

lemma executeCommand_no_extension:
  assumes "pr_allowed (fst (policyCheck hostname now gen command g))"
    and "find (\<lambda>c. snd c) (gw_extensionConnections g) = None"
  shows "executeCommand hostname now gen command g =
     g\<lparr> gw_policy := snd (policyCheck hostname now gen command g),
        gw_nextHandle := gw_nextHandle g + 1,
        gw_issued := gw_issued g @ [(gw_nextHandle g, command\<lparr> cmd_commandId := Some (assignedId gen command) \<rparr>)],
        gw_resolved := gw_resolved g @
          [(gw_nextHandle g, failAck (assignedId gen command) ''No extension connected'' now)] \<rparr>"
  using assms by (simp add: executeCommand_def Let_def sendToExtension_def)

lemma executeCommand_sent:
  assumes "pr_allowed (fst (policyCheck hostname now gen command g))"
    and "find (\<lambda>c. snd c) (gw_extensionConnections g) = Some c"
  shows "executeCommand hostname now gen command g =
     g\<lparr> gw_policy := snd (policyCheck hostname now gen command g),
        gw_nextHandle := gw_nextHandle g + 1,
        gw_issued := gw_issued g @ [(gw_nextHandle g, command\<lparr> cmd_commandId := Some (assignedId gen command) \<rparr>)],
        gw_toExtension := gw_toExtension g @ [(fst c, command\<lparr> cmd_commandId := Some (assignedId gen command) \<rparr>)],
        gw_timers := AList.update (gw_nextHandle g)
           \<lparr> tm_deadline = now + 30000, tm_commandId = assignedId gen command, tm_resolve = gw_nextHandle g \<rparr>
           (gw_timers g),
        gw_pendingCommands := AList.update (assignedId gen command)
           \<lparr> pend_resolve = gw_nextHandle g, pend_timeout = gw_nextHandle g \<rparr> (gw_pendingCommands g) \<rparr>"
  using assms by (simp add: executeCommand_def Let_def sendToExtension_def)

lemma dom_delete: "dom (map_of (AList.delete k al)) = dom (map_of al) - {k}"
  by (auto simp: delete_conv' dom_def)

lemma dom_update: "dom (map_of (AList.update k v al)) = insert k (dom (map_of al))"
  by (auto simp: update_conv' dom_def)

lemma issuedFor_mono:
  "issuedFor g p c \<Longrightarrow> set (gw_issued g) \<subseteq> set (gw_issued g') \<Longrightarrow> issuedFor g' p c"
  unfolding issuedFor_def by blast

lemma inv_resolve_now:
  assumes inv: "pipelineInv g"
    and c: "cmd_commandId cmd = Some (ack_commandId ack)"
  shows "pipelineInv (g\<lparr> gw_policy := ps, gw_nextHandle := gw_nextHandle g + 1,
            gw_issued := gw_issued g @ [(gw_nextHandle g, cmd)],
            gw_resolved := gw_resolved g @ [(gw_nextHandle g, ack)] \<rparr>)"
    (is "pipelineInv ?g'")
proof -
  let ?p = "gw_nextHandle g"
  from inv have fresh: "?p \<notin> resolvedHandles g" "?p \<notin> armedTimers g"
    unfolding pipelineInv_def by (metis less_irrefl)+
  have r: "resolvedHandles ?g' = insert ?p (resolvedHandles g)"
    by (simp add: resolvedHandles_def)
  have t: "armedTimers ?g' = armedTimers g" by (simp add: armedTimers_def)
  have i: "\<And>q k. issuedFor g q k \<Longrightarrow> issuedFor ?g' q k"
    by (rule issuedFor_mono) auto
  have inew: "issuedFor ?g' ?p (ack_commandId ack)"
    using c by (auto simp: issuedFor_def)
  have 1: "distinct (map fst (gw_resolved ?g'))"
    using inv fresh(1) by (simp add: pipelineInv_def resolvedHandles_def)
  have 2: "map fst (gw_issued ?g') = [0..<gw_nextHandle ?g']"
    using inv by (simp add: pipelineInv_def)
  have 3: "\<forall>p. (p \<in> resolvedHandles ?g' \<or> p \<in> armedTimers ?g') = (p < gw_nextHandle ?g')"
    using inv unfolding r t pipelineInv_def by (auto simp: less_Suc_eq)
  have 4: "resolvedHandles ?g' \<inter> armedTimers ?g' = {}"
    using inv fresh(2) unfolding r t pipelineInv_def by auto
  have 5: "\<forall>t tm. map_of (gw_timers ?g') t = Some tm \<longrightarrow>
          tm_resolve tm = t \<and> issuedFor ?g' t (tm_commandId tm)"
    using inv i unfolding pipelineInv_def by simp
  have 6: "\<forall>k pe. map_of (gw_pendingCommands ?g') k = Some pe \<longrightarrow>
          pend_resolve pe = pend_timeout pe \<and>
          (\<exists>tm. map_of (gw_timers ?g') (pend_timeout pe) = Some tm \<and> tm_commandId tm = k)"
    using inv unfolding pipelineInv_def by simp
  have 7: "\<forall>p a. (p, a) \<in> set (gw_resolved ?g') \<longrightarrow> issuedFor ?g' p (ack_commandId a)"
    using inv i inew unfolding pipelineInv_def by auto
  from 1 2 3 4 5 6 7 show ?thesis unfolding pipelineInv_def by blast
qed

lemma inv_arm:
  assumes inv: "pipelineInv g"
    and c: "cmd_commandId cmd = Some k"
  shows "pipelineInv (g\<lparr> gw_policy := ps, gw_nextHandle := gw_nextHandle g + 1,
            gw_issued := gw_issued g @ [(gw_nextHandle g, cmd)],
            gw_toExtension := out,
            gw_timers := AList.update (gw_nextHandle g)
               \<lparr> tm_deadline = dl, tm_commandId = k, tm_resolve = gw_nextHandle g \<rparr> (gw_timers g),
            gw_pendingCommands := AList.update k
               \<lparr> pend_resolve = gw_nextHandle g, pend_timeout = gw_nextHandle g \<rparr> (gw_pendingCommands g) \<rparr>)"
    (is "pipelineInv ?g'")
proof -
  let ?p = "gw_nextHandle g"
  from inv have fresh: "?p \<notin> resolvedHandles g" "?p \<notin> armedTimers g"
    unfolding pipelineInv_def by (metis less_irrefl)+
  have r: "resolvedHandles ?g' = resolvedHandles g"
    by (simp add: resolvedHandles_def)
  have t: "armedTimers ?g' = insert ?p (armedTimers g)" by (simp add: armedTimers_def dom_update)
  have i: "\<And>q k. issuedFor g q k \<Longrightarrow> issuedFor ?g' q k"
    by (rule issuedFor_mono) auto
  have inew: "issuedFor ?g' ?p k"
    using c by (auto simp: issuedFor_def)
  have tm: "map_of (gw_timers ?g') t =
      (if t = ?p then Some \<lparr> tm_deadline = dl, tm_commandId = k, tm_resolve = ?p \<rparr>
       else map_of (gw_timers g) t)" for t
    by (simp add: update_conv')
  have pm: "map_of (gw_pendingCommands ?g') k' =
      (if k' = k then Some \<lparr> pend_resolve = ?p, pend_timeout = ?p \<rparr>
       else map_of (gw_pendingCommands g) k')" for k'
    by (simp add: update_conv')
  have 1: "distinct (map fst (gw_resolved ?g'))"
    using inv by (simp add: pipelineInv_def)
  have 2: "map fst (gw_issued ?g') = [0..<gw_nextHandle ?g']"
    using inv by (simp add: pipelineInv_def)
  have 3: "\<forall>p. (p \<in> resolvedHandles ?g' \<or> p \<in> armedTimers ?g') = (p < gw_nextHandle ?g')"
    using inv unfolding r t pipelineInv_def by (auto simp: less_Suc_eq)
  have 4: "resolvedHandles ?g' \<inter> armedTimers ?g' = {}"
    using inv fresh(1) unfolding r t pipelineInv_def by auto
  have 5: "\<forall>t tm. map_of (gw_timers ?g') t = Some tm \<longrightarrow>
          tm_resolve tm = t \<and> issuedFor ?g' t (tm_commandId tm)"
    using inv i inew unfolding pipelineInv_def tm by auto
  have 6: "\<forall>k pe. map_of (gw_pendingCommands ?g') k = Some pe \<longrightarrow>
          pend_resolve pe = pend_timeout pe \<and>
          (\<exists>tm. map_of (gw_timers ?g') (pend_timeout pe) = Some tm \<and> tm_commandId tm = k)"
  proof (intro allI impI)
    fix k' pe
    assume a: "map_of (gw_pendingCommands ?g') k' = Some pe"
    show "pend_resolve pe = pend_timeout pe \<and>
          (\<exists>tm. map_of (gw_timers ?g') (pend_timeout pe) = Some tm \<and> tm_commandId tm = k')"
    proof (cases "k' = k")
      case True
      with a [unfolded pm] have "pe = \<lparr> pend_resolve = ?p, pend_timeout = ?p \<rparr>" by simp
      with True show ?thesis unfolding tm by simp
    next
      case False
      with a [unfolded pm] have old: "map_of (gw_pendingCommands g) k' = Some pe" by simp
      with inv have e: "pend_resolve pe = pend_timeout pe"
        and "\<exists>tm. map_of (gw_timers g) (pend_timeout pe) = Some tm \<and> tm_commandId tm = k'"
        unfolding pipelineInv_def by blast+
      then obtain tm where tm0: "map_of (gw_timers g) (pend_timeout pe) = Some tm" "tm_commandId tm = k'"
        by blast
      then have "pend_timeout pe \<in> armedTimers g" by (auto simp: armedTimers_def)
      with fresh(2) have "pend_timeout pe \<noteq> ?p" by auto
      with tm0 e show ?thesis unfolding tm by simp
    qed
  qed
  have 7: "\<forall>p a. (p, a) \<in> set (gw_resolved ?g') \<longrightarrow> issuedFor ?g' p (ack_commandId a)"
    using inv i unfolding pipelineInv_def by auto
  from 1 2 3 4 5 6 7 show ?thesis unfolding pipelineInv_def by blast
qed

lemma inv_settle:
  assumes inv: "pipelineInv g"
    and tm: "map_of (gw_timers g) t = Some tm"
    and k: "tm_commandId tm = ack_commandId ack"
  shows "pipelineInv (g\<lparr> gw_timers := AList.delete t (gw_timers g),
            gw_resolved := gw_resolved g @ [(t, ack)],
            gw_pendingCommands := AList.delete (tm_commandId tm) (gw_pendingCommands g) \<rparr>)"
    (is "pipelineInv ?g'")
proof -
  from tm have armed: "t \<in> armedTimers g" by (auto simp: armedTimers_def)
  with inv have fresh: "t \<notin> resolvedHandles g" unfolding pipelineInv_def by blast
  from inv tm have iss: "issuedFor g t (tm_commandId tm)" unfolding pipelineInv_def by blast
  have r: "resolvedHandles ?g' = insert t (resolvedHandles g)"
    by (simp add: resolvedHandles_def)
  have t: "armedTimers ?g' = armedTimers g - {t}" by (simp add: armedTimers_def dom_delete)
  have i: "issuedFor ?g' q c = issuedFor g q c" for q c
    by (simp add: issuedFor_def)
  have tmap: "map_of (gw_timers ?g') t' = (if t' = t then None else map_of (gw_timers g) t')" for t'
    by (simp add: delete_conv')
  have pmap: "map_of (gw_pendingCommands ?g') k' =
      (if k' = tm_commandId tm then None else map_of (gw_pendingCommands g) k')" for k'
    by (simp add: delete_conv')
  have 1: "distinct (map fst (gw_resolved ?g'))"
    using inv fresh by (simp add: pipelineInv_def resolvedHandles_def)
  have 2: "map fst (gw_issued ?g') = [0..<gw_nextHandle ?g']"
    using inv by (simp add: pipelineInv_def)
  have 3: "\<forall>p. (p \<in> resolvedHandles ?g' \<or> p \<in> armedTimers ?g') = (p < gw_nextHandle ?g')"
  proof
    fix p
    from inv have "(p \<in> resolvedHandles g \<or> p \<in> armedTimers g) = (p < gw_nextHandle g)"
      unfolding pipelineInv_def by blast
    with armed show "(p \<in> resolvedHandles ?g' \<or> p \<in> armedTimers ?g') = (p < gw_nextHandle ?g')"
      unfolding r t by auto
  qed
  have 4: "resolvedHandles ?g' \<inter> armedTimers ?g' = {}"
    using inv unfolding r t pipelineInv_def by auto
  have 5: "\<forall>t tm. map_of (gw_timers ?g') t = Some tm \<longrightarrow>
          tm_resolve tm = t \<and> issuedFor ?g' t (tm_commandId tm)"
    using inv unfolding pipelineInv_def tmap i by auto
  have 6: "\<forall>k pe. map_of (gw_pendingCommands ?g') k = Some pe \<longrightarrow>
          pend_resolve pe = pend_timeout pe \<and>
          (\<exists>tm. map_of (gw_timers ?g') (pend_timeout pe) = Some tm \<and> tm_commandId tm = k)"
  proof (intro allI impI)
    fix k' pe
    assume a: "map_of (gw_pendingCommands ?g') k' = Some pe"
    from a [unfolded pmap] have ne: "k' \<noteq> tm_commandId tm"
      and old: "map_of (gw_pendingCommands g) k' = Some pe"
      by (simp_all split: if_splits)
    with inv have e: "pend_resolve pe = pend_timeout pe"
      and "\<exists>tm. map_of (gw_timers g) (pend_timeout pe) = Some tm \<and> tm_commandId tm = k'"
      unfolding pipelineInv_def by blast+
    then obtain tm' where tm': "map_of (gw_timers g) (pend_timeout pe) = Some tm'" "tm_commandId tm' = k'"
      by blast
    with ne tm have "pend_timeout pe \<noteq> t" by auto
    with tm' e show "pend_resolve pe = pend_timeout pe \<and>
          (\<exists>tm. map_of (gw_timers ?g') (pend_timeout pe) = Some tm \<and> tm_commandId tm = k')"
      unfolding tmap by simp
  qed
  have 7: "\<forall>p a. (p, a) \<in> set (gw_resolved ?g') \<longrightarrow> issuedFor ?g' p (ack_commandId a)"
    using inv iss k unfolding pipelineInv_def i by auto
  from 1 2 3 4 5 6 7 show ?thesis unfolding pipelineInv_def by blast
qed

lemma inv_toRepl: "pipelineInv (g\<lparr> gw_toRepl := out \<rparr>) = pipelineInv g"
  by (simp add: pipelineInv_def resolvedHandles_def armedTimers_def issuedFor_def)

lemma inv_other:
  "pipelineInv (g\<lparr> gw_world := world, gw_policy := policy,
       gw_extensionConnections := exts, gw_replConnections := repls \<rparr>) = pipelineInv g"
  by (simp add: pipelineInv_def resolvedHandles_def armedTimers_def issuedFor_def)

lemma inv_start: "pipelineInv (startGateway world policy exts repls)"
  by (simp add: pipelineInv_def startGateway_def resolvedHandles_def armedTimers_def issuedFor_def)

lemma executeCommand_inv:
  assumes "pipelineInv g"
  shows "pipelineInv (executeCommand hostname now gen command g)"
proof (cases "pr_allowed (fst (policyCheck hostname now gen command g))")
  case False
  show ?thesis
    unfolding executeCommand_denied [OF False]
    by (rule inv_resolve_now [OF assms]) (simp add: failAck_def)
next
  case True
  show ?thesis
  proof (cases "find (\<lambda>c. snd c) (gw_extensionConnections g)")
    case None
    show ?thesis
      unfolding executeCommand_no_extension [OF True None]
      by (rule inv_resolve_now [OF assms]) (simp add: failAck_def)
  next
    case (Some c)
    show ?thesis
      unfolding executeCommand_sent [OF True Some]
      by (rule inv_arm [OF assms]) simp
  qed
qed

lemma handleCommandAck_unmatched:
  "map_of (gw_pendingCommands g) (ack_commandId ack) = None \<Longrightarrow>
   handleCommandAck ack g = broadcastToRepl ack g"
  by (simp add: handleCommandAck_def)

lemma handleCommandAck_matched:
  "map_of (gw_pendingCommands g) (ack_commandId ack) = Some pe \<Longrightarrow>
   handleCommandAck ack g = broadcastToRepl ack
     (g\<lparr> gw_timers := AList.delete (pend_timeout pe) (gw_timers g),
         gw_resolved := gw_resolved g @ [(pend_resolve pe, ack)],
         gw_pendingCommands := AList.delete (ack_commandId ack) (gw_pendingCommands g) \<rparr>)"
  by (simp add: handleCommandAck_def)

lemma handleCommandAck_inv:
  assumes "pipelineInv g"
  shows "pipelineInv (handleCommandAck ack g)"
proof (cases "map_of (gw_pendingCommands g) (ack_commandId ack)")
  case None
  with assms show ?thesis
    by (simp add: handleCommandAck_unmatched broadcastToRepl_def inv_toRepl)
next
  case (Some pe)
  with assms obtain tm where e: "pend_resolve pe = pend_timeout pe"
    and tm: "map_of (gw_timers g) (pend_timeout pe) = Some tm" "tm_commandId tm = ack_commandId ack"
    unfolding pipelineInv_def by blast
  from inv_settle [OF assms tm(1) tm(2)] e tm(2) show ?thesis
    by (simp add: handleCommandAck_matched [OF Some] broadcastToRepl_def inv_toRepl)
qed

lemma fireTimeout_inv:
  assumes "pipelineInv g"
  shows "pipelineInv (fireTimeout t now g)"
proof (cases "map_of (gw_timers g) t")
  case None
  with assms show ?thesis by (simp add: fireTimeout_def)
next
  case (Some tm)
  with assms have r: "tm_resolve tm = t" unfolding pipelineInv_def by blast
  show ?thesis
  proof (cases "now < tm_deadline tm")
    case True
    with Some assms show ?thesis by (simp add: fireTimeout_def)
  next
    case False
    have "pipelineInv (g\<lparr> gw_timers := AList.delete t (gw_timers g),
            gw_resolved := gw_resolved g @ [(t, failAck (tm_commandId tm) ''Command timeout'' now)],
            gw_pendingCommands := AList.delete (tm_commandId tm) (gw_pendingCommands g) \<rparr>)"
      by (rule inv_settle [OF assms Some]) (simp add: failAck_def)
    also have "g\<lparr> gw_timers := AList.delete t (gw_timers g),
            gw_resolved := gw_resolved g @ [(t, failAck (tm_commandId tm) ''Command timeout'' now)],
            gw_pendingCommands := AList.delete (tm_commandId tm) (gw_pendingCommands g) \<rparr>
          = fireTimeout t now g"
      using False Some r by (simp add: fireTimeout_def)
    finally show ?thesis .
  qed
qed

lemma step_inv: "pipelineInv g \<Longrightarrow> pipelineInv (step hostname e g)"
  by (cases e) (simp_all add: executeCommand_inv handleCommandAck_inv fireTimeout_inv inv_other)

lemma run_inv: "pipelineInv g \<Longrightarrow> pipelineInv (run hostname es g)"
  by (induction es arbitrary: g) (simp_all add: step_inv)

lemma checkCommand_denied_reason:
  assumes "\<not> pr_allowed (fst (checkCommand hostname now command tabUrl elementName ps))"
  shows "\<exists>r. pr_reason (fst (checkCommand hostname now command tabUrl elementName ps)) = Some r \<and> r \<noteq> []"
  using assms
  by (cases "checkRateLimits now ps")
     (auto simp: checkCommand_def checkRateLimits_def Let_def split: if_splits prod.splits)

lemma checkCommand_domain_denied:
  assumes "tabUrl = Some url" "url \<noteq> []" "\<not> isDomainAllowed hostname (ps_config ps) url"
  shows "fst (checkCommand hostname now command tabUrl elementName ps) =
           \<lparr> pr_allowed = False, pr_reason = Some (''Domain not allowed: '' @ url), pr_warnings = None \<rparr>"
  using assms by (simp add: checkCommand_def truthy_def)

text \<open>
  Claim C7. When the policy denies a command, \<open>executeCommand\<close> resolves the command's
  promise with an ack whose status is \<open>fail\<close>, whose reason is the policy's reason (never
  empty) and whose \<open>commandId\<close> is the command's id, sends nothing to an extension socket,
  and leaves the pending table and the timers as they were. When the target tab has a
  non-empty url that the domain check denies, the reason is
  \<open>Domain not allowed: <tab url>\<close>.
\<close>

theorem executeCommand_policy_denied:
  "(\<not> pr_allowed (fst (policyCheck hostname now gen command g)) \<longrightarrow>
      (\<exists>reason. pr_reason (fst (policyCheck hostname now gen command g)) = Some reason \<and>
         reason \<noteq> [] \<and>
         gw_resolved (executeCommand hostname now gen command g) =
           gw_resolved g @
             [(gw_nextHandle g,
               \<lparr> ack_commandId = assignedId gen command, ack_status = AckFail reason,
                 ack_timestamp = now, ack_tabId = None \<rparr>)]) \<and>
      gw_toExtension (executeCommand hostname now gen command g) = gw_toExtension g \<and>
      gw_pendingCommands (executeCommand hostname now gen command g) = gw_pendingCommands g \<and>
      gw_timers (executeCommand hostname now gen command g) = gw_timers g) \<and>
   (targetUrl g command = Some url \<and> url \<noteq> [] \<and>
    \<not> isDomainAllowed hostname (ps_config (gw_policy g)) url \<longrightarrow>
      gw_resolved (executeCommand hostname now gen command g) =
        gw_resolved g @
          [(gw_nextHandle g,
            \<lparr> ack_commandId = assignedId gen command,
              ack_status = AckFail (''Domain not allowed: '' @ url),
              ack_timestamp = now, ack_tabId = None \<rparr>)] \<and>
      gw_toExtension (executeCommand hostname now gen command g) = gw_toExtension g \<and>
      gw_pendingCommands (executeCommand hostname now gen command g) = gw_pendingCommands g \<and>
      gw_timers (executeCommand hostname now gen command g) = gw_timers g)"
proof (intro conjI impI)
  assume d: "\<not> pr_allowed (fst (policyCheck hostname now gen command g))"
  then obtain r where r: "pr_reason (fst (policyCheck hostname now gen command g)) = Some r" "r \<noteq> []"
    unfolding policyCheck_def using checkCommand_denied_reason by blast
  then have "gw_resolved (executeCommand hostname now gen command g) =
           gw_resolved g @
             [(gw_nextHandle g,
               \<lparr> ack_commandId = assignedId gen command, ack_status = AckFail r,
                 ack_timestamp = now, ack_tabId = None \<rparr>)]"
    by (simp add: executeCommand_denied [OF d] truthy_def failAck_def)
  with r show "\<exists>reason. pr_reason (fst (policyCheck hostname now gen command g)) = Some reason \<and>
         reason \<noteq> [] \<and>
         gw_resolved (executeCommand hostname now gen command g) =
           gw_resolved g @
             [(gw_nextHandle g,
               \<lparr> ack_commandId = assignedId gen command, ack_status = AckFail reason,
                 ack_timestamp = now, ack_tabId = None \<rparr>)]"
    by blast
  show "gw_toExtension (executeCommand hostname now gen command g) = gw_toExtension g"
    "gw_pendingCommands (executeCommand hostname now gen command g) = gw_pendingCommands g"
    "gw_timers (executeCommand hostname now gen command g) = gw_timers g"
    by (simp_all add: executeCommand_denied [OF d])
next
  assume a: "targetUrl g command = Some url \<and> url \<noteq> [] \<and>
    \<not> isDomainAllowed hostname (ps_config (gw_policy g)) url"
  then have f: "fst (policyCheck hostname now gen command g) =
      \<lparr> pr_allowed = False, pr_reason = Some (''Domain not allowed: '' @ url), pr_warnings = None \<rparr>"
    unfolding policyCheck_def by (intro checkCommand_domain_denied) simp_all
  then have d: "\<not> pr_allowed (fst (policyCheck hostname now gen command g))" by simp
  show "gw_resolved (executeCommand hostname now gen command g) =
        gw_resolved g @
          [(gw_nextHandle g,
            \<lparr> ack_commandId = assignedId gen command,
              ack_status = AckFail (''Domain not allowed: '' @ url),
              ack_timestamp = now, ack_tabId = None \<rparr>)]"
    by (simp add: executeCommand_denied [OF d] f truthy_def failAck_def)
  show "gw_toExtension (executeCommand hostname now gen command g) = gw_toExtension g"
    "gw_pendingCommands (executeCommand hostname now gen command g) = gw_pendingCommands g"
    "gw_timers (executeCommand hostname now gen command g) = gw_timers g"
    by (simp_all add: executeCommand_denied [OF d])
qed

theorem executeCommand_policy_denied_witness:
  "targetUrl (exGateway (exPolicy ModeAllowlist [''b.com''])) (exCommand CmdClick) = Some ''https://a/''
   \<and> \<not> isDomainAllowed exHostname (exPolicy ModeAllowlist [''b.com'']) ''https://a/''
   \<and> find (\<lambda>c. snd c) (gw_extensionConnections (exGateway (exPolicy ModeAllowlist [''b.com''])))
        = Some (0, True)
   \<and> gw_resolved (executeCommand exHostname 1000 ''cmd_g'' (exCommand CmdClick)
         (exGateway (exPolicy ModeAllowlist [''b.com''])))
       = [(0, \<lparr> ack_commandId = ''cmd_1'',
                 ack_status = AckFail ''Domain not allowed: https://a/'',
                 ack_timestamp = 1000, ack_tabId = None \<rparr>)]
   \<and> gw_toExtension (executeCommand exHostname 1000 ''cmd_g'' (exCommand CmdClick)
         (exGateway (exPolicy ModeAllowlist [''b.com'']))) = []
   \<and> gw_pendingCommands (executeCommand exHostname 1000 ''cmd_g'' (exCommand CmdClick)
         (exGateway (exPolicy ModeAllowlist [''b.com'']))) = []
   \<and> gw_timers (executeCommand exHostname 1000 ''cmd_g'' (exCommand CmdClick)
         (exGateway (exPolicy ModeAllowlist [''b.com'']))) = []"
proof -
  let ?g = "exGateway (exPolicy ModeAllowlist [''b.com''])"
  have u: "targetUrl ?g (exCommand CmdClick) = Some ''https://a/''"
    by (simp add: targetUrl_def exGateway_def startGateway_def getTab_def exWorld_def exTab_def exCommand_def)
  have c: "ps_config (gw_policy ?g) = exPolicy ModeAllowlist [''b.com'']"
    by (simp add: exGateway_def startGateway_def exPolicyState_def)
  have d: "\<not> isDomainAllowed exHostname (exPolicy ModeAllowlist [''b.com'']) ''https://a/''"
    by code_simp
  have f: "find (\<lambda>c. snd c) (gw_extensionConnections ?g) = Some (0, True)"
    by (simp add: exGateway_def startGateway_def)
  have s: "gw_resolved ?g = []" "gw_toExtension ?g = []" "gw_pendingCommands ?g = []"
    "gw_timers ?g = []" "gw_nextHandle ?g = 0"
    by (simp_all add: exGateway_def startGateway_def)
  have a: "assignedId ''cmd_g'' (exCommand CmdClick) = ''cmd_1''"
    by (simp add: assignedId_def exCommand_def truthy_def)
  from executeCommand_policy_denied [of exHostname 1000 "''cmd_g''" "exCommand CmdClick" ?g "''https://a/''"]
    u c d
  have "gw_resolved (executeCommand exHostname 1000 ''cmd_g'' (exCommand CmdClick) ?g) =
        gw_resolved ?g @
          [(gw_nextHandle ?g,
            \<lparr> ack_commandId = assignedId ''cmd_g'' (exCommand CmdClick),
              ack_status = AckFail (''Domain not allowed: '' @ ''https://a/''),
              ack_timestamp = 1000, ack_tabId = None \<rparr>)]"
    "gw_toExtension (executeCommand exHostname 1000 ''cmd_g'' (exCommand CmdClick) ?g) = gw_toExtension ?g"
    "gw_pendingCommands (executeCommand exHostname 1000 ''cmd_g'' (exCommand CmdClick) ?g) = gw_pendingCommands ?g"
    "gw_timers (executeCommand exHostname 1000 ''cmd_g'' (exCommand CmdClick) ?g) = gw_timers ?g"
    by simp_all
  with u d f s a show ?thesis by simp
qed

text \<open>
  Claim C2, as the code has it. After any sequence of events from start-up, every call of
  \<open>executeCommand\<close> has created one promise; no promise has been resolved twice; every
  promise is either resolved or has its timer armed, never both; and every resolving ack
  carries the id of the command the promise was created for. An armed timer that fires at
  or after its deadline resolves its promise with the \<open>Command timeout\<close> ack; a command that
  is allowed and sent is not resolved at once and gets a timer 30000 ms ahead; a command
  that is allowed while no extension socket is open is resolved at once with
  \<open>No extension connected\<close>, and a denied one at once with a fail ack. An inbound ack with
  a pending entry resolves that entry's promise, clears its timer and removes the entry.
  An inbound ack whose id has no pending entry resolves nothing and leaves the pending
  table and the timers as they were, and it is still sent to every open REPL connection
  whose subscription admits it.
\<close>

theorem command_resolution:
  "g = run hostname events (startGateway world policy exts repls) \<Longrightarrow>
   map fst (gw_issued g) = [0..<gw_nextHandle g] \<and>
   distinct (map fst (gw_resolved g)) \<and>
   (\<forall>p cmd. (p, cmd) \<in> set (gw_issued g) \<longrightarrow> (p \<in> resolvedHandles g) \<noteq> (p \<in> armedTimers g)) \<and>
   (\<forall>p ack. (p, ack) \<in> set (gw_resolved g) \<longrightarrow> issuedFor g p (ack_commandId ack)) \<and>
   (\<forall>t tm. map_of (gw_timers g) t = Some tm \<and> tm_deadline tm \<le> now \<longrightarrow>
       issuedFor g t (tm_commandId tm) \<and>
       gw_resolved (fireTimeout t now g) =
         gw_resolved g @ [(t, failAck (tm_commandId tm) ''Command timeout'' now)]) \<and>
   (pr_allowed (fst (policyCheck hostname now gen command g)) \<and>
    find (\<lambda>c. snd c) (gw_extensionConnections g) \<noteq> None \<longrightarrow>
       gw_resolved (executeCommand hostname now gen command g) = gw_resolved g \<and>
       map_of (gw_timers (executeCommand hostname now gen command g)) (gw_nextHandle g) =
         Some \<lparr> tm_deadline = now + 30000, tm_commandId = assignedId gen command,
                tm_resolve = gw_nextHandle g \<rparr>) \<and>
   (pr_allowed (fst (policyCheck hostname now gen command g)) \<and>
    find (\<lambda>c. snd c) (gw_extensionConnections g) = None \<longrightarrow>
       gw_resolved (executeCommand hostname now gen command g) =
         gw_resolved g @
           [(gw_nextHandle g, failAck (assignedId gen command) ''No extension connected'' now)]) \<and>
   (\<not> pr_allowed (fst (policyCheck hostname now gen command g)) \<longrightarrow>
       (\<exists>reason. gw_resolved (executeCommand hostname now gen command g) =
          gw_resolved g @ [(gw_nextHandle g, failAck (assignedId gen command) reason now)])) \<and>
   (map_of (gw_pendingCommands g) (ack_commandId ack) = Some pe \<longrightarrow>
       gw_resolved (handleCommandAck ack g) = gw_resolved g @ [(pend_resolve pe, ack)] \<and>
       map_of (gw_timers (handleCommandAck ack g)) (pend_timeout pe) = None \<and>
       map_of (gw_pendingCommands (handleCommandAck ack g)) (ack_commandId ack) = None) \<and>
   (map_of (gw_pendingCommands g) (ack_commandId ack) = None \<longrightarrow>
       gw_resolved (handleCommandAck ack g) = gw_resolved g \<and>
       gw_pendingCommands (handleCommandAck ack g) = gw_pendingCommands g \<and>
       gw_timers (handleCommandAck ack g) = gw_timers g \<and>
       gw_toRepl (handleCommandAck ack g) =
         gw_toRepl g @ map (\<lambda>c. (fst c, ack)) (filter (\<lambda>c. replReceives ack (snd c)) (gw_replConnections g)))"
proof -
  assume g: "g = run hostname events (startGateway world policy exts repls)"
  have inv: "pipelineInv g" unfolding g by (rule run_inv) (rule inv_start)
  have 1: "map fst (gw_issued g) = [0..<gw_nextHandle g]" "distinct (map fst (gw_resolved g))"
    using inv unfolding pipelineInv_def by blast+
  have 3: "\<forall>p cmd. (p, cmd) \<in> set (gw_issued g) \<longrightarrow> (p \<in> resolvedHandles g) \<noteq> (p \<in> armedTimers g)"
  proof (intro allI impI)
    fix p cmd
    assume "(p, cmd) \<in> set (gw_issued g)"
    then have "p \<in> set (map fst (gw_issued g))" by force
    with 1 have "p < gw_nextHandle g" by simp
    with inv have "p \<in> resolvedHandles g \<or> p \<in> armedTimers g"
      and "resolvedHandles g \<inter> armedTimers g = {}"
      unfolding pipelineInv_def by blast+
    then show "(p \<in> resolvedHandles g) \<noteq> (p \<in> armedTimers g)" by blast
  qed
  have 4: "\<forall>p ack. (p, ack) \<in> set (gw_resolved g) \<longrightarrow> issuedFor g p (ack_commandId ack)"
    using inv unfolding pipelineInv_def by blast
  have 5: "\<forall>t tm. map_of (gw_timers g) t = Some tm \<and> tm_deadline tm \<le> now \<longrightarrow>
       issuedFor g t (tm_commandId tm) \<and>
       gw_resolved (fireTimeout t now g) =
         gw_resolved g @ [(t, failAck (tm_commandId tm) ''Command timeout'' now)]"
  proof (intro allI impI)
    fix t tm
    assume a: "map_of (gw_timers g) t = Some tm \<and> tm_deadline tm \<le> now"
    with inv have "tm_resolve tm = t" "issuedFor g t (tm_commandId tm)"
      unfolding pipelineInv_def by blast+
    with a show "issuedFor g t (tm_commandId tm) \<and>
       gw_resolved (fireTimeout t now g) =
         gw_resolved g @ [(t, failAck (tm_commandId tm) ''Command timeout'' now)]"
      by (simp add: fireTimeout_def)
  qed
  have 6: "pr_allowed (fst (policyCheck hostname now gen command g)) \<and>
    find (\<lambda>c. snd c) (gw_extensionConnections g) \<noteq> None \<longrightarrow>
       gw_resolved (executeCommand hostname now gen command g) = gw_resolved g \<and>
       map_of (gw_timers (executeCommand hostname now gen command g)) (gw_nextHandle g) =
         Some \<lparr> tm_deadline = now + 30000, tm_commandId = assignedId gen command,
                tm_resolve = gw_nextHandle g \<rparr>"
  proof
    assume a: "pr_allowed (fst (policyCheck hostname now gen command g)) \<and>
      find (\<lambda>c. snd c) (gw_extensionConnections g) \<noteq> None"
    then obtain c where c: "find (\<lambda>c. snd c) (gw_extensionConnections g) = Some c" by blast
    from a have p: "pr_allowed (fst (policyCheck hostname now gen command g))" by blast
    show "gw_resolved (executeCommand hostname now gen command g) = gw_resolved g \<and>
       map_of (gw_timers (executeCommand hostname now gen command g)) (gw_nextHandle g) =
         Some \<lparr> tm_deadline = now + 30000, tm_commandId = assignedId gen command,
                tm_resolve = gw_nextHandle g \<rparr>"
      by (simp add: executeCommand_sent [OF p c] update_conv')
  qed
  have 7: "map_of (gw_pendingCommands g) (ack_commandId ack) = None \<longrightarrow>
       gw_resolved (handleCommandAck ack g) = gw_resolved g \<and>
       gw_pendingCommands (handleCommandAck ack g) = gw_pendingCommands g \<and>
       gw_timers (handleCommandAck ack g) = gw_timers g \<and>
       gw_toRepl (handleCommandAck ack g) =
         gw_toRepl g @ map (\<lambda>c. (fst c, ack)) (filter (\<lambda>c. replReceives ack (snd c)) (gw_replConnections g))"
    by (simp add: handleCommandAck_unmatched broadcastToRepl_def case_prod_unfold)
  have 8: "pr_allowed (fst (policyCheck hostname now gen command g)) \<and>
    find (\<lambda>c. snd c) (gw_extensionConnections g) = None \<longrightarrow>
       gw_resolved (executeCommand hostname now gen command g) =
         gw_resolved g @
           [(gw_nextHandle g, failAck (assignedId gen command) ''No extension connected'' now)]"
    by (simp add: executeCommand_no_extension)
  have 9: "\<not> pr_allowed (fst (policyCheck hostname now gen command g)) \<longrightarrow>
       (\<exists>reason. gw_resolved (executeCommand hostname now gen command g) =
          gw_resolved g @ [(gw_nextHandle g, failAck (assignedId gen command) reason now)])"
    by (auto simp: executeCommand_denied)
  have 10: "map_of (gw_pendingCommands g) (ack_commandId ack) = Some pe \<longrightarrow>
       gw_resolved (handleCommandAck ack g) = gw_resolved g @ [(pend_resolve pe, ack)] \<and>
       map_of (gw_timers (handleCommandAck ack g)) (pend_timeout pe) = None \<and>
       map_of (gw_pendingCommands (handleCommandAck ack g)) (ack_commandId ack) = None"
    by (simp add: handleCommandAck_matched broadcastToRepl_def delete_conv')
  from 1 3 4 5 6 7 8 9 10 show ?thesis by blast
qed

theorem command_resolution_witness:
  "gw_issued (run exHostname exEvents (exGateway defaultConfig))
     = [(0, exCommand CmdHover), (1, (exCommand CmdClick)\<lparr> cmd_commandId := Some ''cmd_g2'' \<rparr>)]
   \<and> gw_resolved (run exHostname exEvents (exGateway defaultConfig))
     = [(0, exAck ''cmd_1''), (1, failAck ''cmd_g2'' ''Command timeout'' 40000)]
   \<and> gw_timers (run exHostname exEvents (exGateway defaultConfig)) = []
   \<and> gw_pendingCommands (run exHostname exEvents (exGateway defaultConfig)) = []
   \<and> gw_nextHandle (run exHostname exEvents (exGateway defaultConfig)) = 2
   \<and> distinct (map fst (gw_resolved (run exHostname exEvents (exGateway defaultConfig))))
   \<and> issuedFor (run exHostname exEvents (exGateway defaultConfig)) 1 ''cmd_g2''
   \<and> gw_resolved (handleCommandAck (exAck ''cmd_1'') (run exHostname exEvents (exGateway defaultConfig)))
       = gw_resolved (run exHostname exEvents (exGateway defaultConfig))"
proof -
  let ?g = "run exHostname exEvents (exGateway defaultConfig)"
  have e: "gw_issued ?g = [(0, exCommand CmdHover), (1, (exCommand CmdClick)\<lparr> cmd_commandId := Some ''cmd_g2'' \<rparr>)]"
    "gw_resolved ?g = [(0, exAck ''cmd_1''), (1, failAck ''cmd_g2'' ''Command timeout'' 40000)]"
    "gw_timers ?g = []" "gw_pendingCommands ?g = []" "gw_nextHandle ?g = 2"
    by code_simp+
  have p: "map_of (gw_pendingCommands ?g) (ack_commandId (exAck ''cmd_1'')) = None"
    by (simp add: e)
  note t = command_resolution [where g = ?g and hostname = exHostname and events = exEvents
      and world = "exWorld ''https://a/'' exCandidates" and policy = "exPolicyState defaultConfig []"
      and exts = "[(0, True)]" and repls = "[(5, \<lparr> rs_open = True, rs_subscribedTabId = Some 1 \<rparr>)]"
      and ack = "exAck ''cmd_1''", unfolded exGateway_def [symmetric], OF refl]
  from t have d: "distinct (map fst (gw_resolved ?g))" by blast
  from t e(2) have i: "issuedFor ?g 1 ''cmd_g2''"
    by (auto simp: failAck_def)
  from t p have u: "gw_resolved (handleCommandAck (exAck ''cmd_1'') ?g) = gw_resolved ?g" by blast
  from e d i u show ?thesis by simp
qed

text \<open>
  Claim C2 as stated fails for an inbound ack without a pending entry: nothing is pending
  at start-up, one REPL connection is open, and the ack is sent to it.
\<close>

theorem handleCommandAck_broadcast_counterexample:
  "map_of (gw_pendingCommands (exGateway defaultConfig)) (ack_commandId (exAck ''cmd_9'')) = None
   \<and> gw_toRepl (exGateway defaultConfig) = []
   \<and> gw_toRepl (handleCommandAck (exAck ''cmd_9'') (exGateway defaultConfig)) = [(5, exAck ''cmd_9'')]"
  by (simp add: exGateway_def startGateway_def handleCommandAck_def broadcastToRepl_def
      replReceives_def exAck_def)

end
